theory Spec2Isabelle
  imports Complex_Main "HOL-Library.AList" "HOL-Library.Char_ord" "HOL-Library.List_Lexorder"
    "HOL-Library.Multiset"
begin

section \<open>Python values, exceptions and collaborators\<close>

text \<open>
  The metadata dictionaries of the EXIF viewer hold strings, numbers, sequences and
  nested dictionaries. A dictionary is an association list in insertion order with
  pairwise distinct keys; \<open>d[k] = v\<close> is \<^const>\<open>AList.update\<close> (overwrite in place, or
  append), \<open>k in d\<close> is membership in the keys, \<open>d.get(k)\<close> is \<^const>\<open>map_of\<close>.
  Keys are tag indices or tag names; \<open>PList\<close> is a list and \<open>PTuple\<close> a tuple.
  Python floats are modelled by the reals: rounding,
  infinities and NaN are outside the model.
\<close>

datatype pykey = KInt int | KStr string

datatype pyval =
    PNone
  | PBool bool
  | PInt int
  | PFloat real
  | PStr string
  | PList "pyval list"
  | PTuple "pyval list"
  | PDict "(pykey \<times> pyval) list"

type_synonym pydict = "(pykey \<times> pyval) list"

text \<open>Exceptions deriving from \<open>Exception\<close>: the class and the text of \<open>str(e)\<close>.\<close>

datatype exc_class =
    TypeError | ValueError | KeyError | IndexError | AttributeError
  | FileNotFoundError | TimeoutExpired | ImportError | OSError | OverflowError | OtherError

datatype exc = Exc exc_class string

fun exc_msg :: "exc \<Rightarrow> string" where
  "exc_msg (Exc c m) = m"

fun exc_cls :: "exc \<Rightarrow> exc_class" where
  "exc_cls (Exc c m) = c"

definition bindE :: "exc + 'a \<Rightarrow> ('a \<Rightarrow> exc + 'b) \<Rightarrow> exc + 'b" where
  "bindE r f = (case r of Inl e \<Rightarrow> Inl e | Inr x \<Rightarrow> f x)"

text \<open>What \<open>os.stat\<close>, Pillow and mutagen hand back.\<close>

record stat_result =
  st_size :: int
  st_ctime :: real
  st_mtime :: real

record pil_image =
  getexif :: "exc + (int \<times> pyval) list option"
  img_format :: pyval
  img_mode :: pyval
  img_size :: "int \<times> int"

record mp3_audio =
  info_length :: real
  info_bitrate :: int
  info_sample_rate :: int
  mp3_tags :: "(string \<times> pyval) list option"

text \<open>
  The world outside the repository: the Python builtins whose output format the
  program does not fix, the tag tables of Pillow, the file system, and the metadata
  sources. Each call that can raise returns \<open>Inl\<close> of the exception.
\<close>

record env =
  str :: "pyval \<Rightarrow> string"
  float_of_str :: "string \<Rightarrow> real option"
  format_comma :: "int \<Rightarrow> string"
  format_2f :: "real \<Rightarrow> string"
  TAGS :: "int \<Rightarrow> string option"
  GPSTAGS :: "int \<Rightarrow> string option"
  path_exists :: "string \<Rightarrow> bool"
  os_stat :: "string \<Rightarrow> exc + stat_result"
  Image_open :: "string \<Rightarrow> exc + pil_image"
  exifread_process_file :: "string \<Rightarrow> exc + (string \<times> pyval) list"
  ffprobe_run :: "string \<Rightarrow> exc + (int \<times> string)"
  json_loads :: "string \<Rightarrow> exc + pyval"
  mutagen_import :: "exc option"
  mutagen_MP3 :: "string \<Rightarrow> exc + mp3_audio"
  isdir :: "string \<Rightarrow> bool"
  glob :: "string \<Rightarrow> bool \<Rightarrow> string list"
  is_file :: "string \<Rightarrow> bool"
  open_write :: "string \<Rightarrow> exc option"

subsection \<open>Builtins on values\<close>

fun truthy :: "pyval \<Rightarrow> bool" where
  "truthy PNone = False"
| "truthy (PBool b) = b"
| "truthy (PInt i) = (i \<noteq> 0)"
| "truthy (PFloat r) = (r \<noteq> 0)"
| "truthy (PStr s) = (s \<noteq> [])"
| "truthy (PList xs) = (xs \<noteq> [])"
| "truthy (PTuple xs) = (xs \<noteq> [])"
| "truthy (PDict kvs) = (kvs \<noteq> [])"

text \<open>The name of a value's type, quoted as Python's messages print it.\<close>

fun type_name :: "pyval \<Rightarrow> string" where
  "type_name PNone = ''NoneType''"
| "type_name (PBool b) = ''bool''"
| "type_name (PInt i) = ''int''"
| "type_name (PFloat r) = ''float''"
| "type_name (PStr s) = ''str''"
| "type_name (PList xs) = ''list''"
| "type_name (PTuple xs) = ''tuple''"
| "type_name (PDict kvs) = ''dict''"

definition quoted :: "string \<Rightarrow> string" where
  "quoted s = CHR 0x27 # s @ [CHR 0x27]"

text \<open>The \<open>AttributeError\<close> of \<open>v.name\<close> on a value without that attribute.\<close>

definition no_attribute :: "pyval \<Rightarrow> string \<Rightarrow> exc" where
  "no_attribute v name =
     Exc AttributeError (quoted (type_name v) @ '' object has no attribute '' @ quoted name)"

fun py_len :: "pyval \<Rightarrow> exc + nat" where
  "py_len (PStr s) = Inr (length s)"
| "py_len (PList xs) = Inr (length xs)"
| "py_len (PTuple xs) = Inr (length xs)"
| "py_len (PDict kvs) = Inr (length kvs)"
| "py_len v = Inl (Exc TypeError (''object of type '' @ quoted (type_name v) @ '' has no len()''))"

text \<open>\<open>value[i]\<close> for a literal index \<open>i \<ge> 0\<close>.\<close>

fun py_getitem :: "pyval \<Rightarrow> nat \<Rightarrow> exc + pyval" where
  "py_getitem (PList xs) i =
     (if i < length xs then Inr (xs ! i) else Inl (Exc IndexError ''list index out of range''))"
| "py_getitem (PTuple xs) i =
     (if i < length xs then Inr (xs ! i) else Inl (Exc IndexError ''tuple index out of range''))"
| "py_getitem (PStr s) i =
     (if i < length s then Inr (PStr [s ! i]) else Inl (Exc IndexError ''string index out of range''))"
| "py_getitem (PDict kvs) i =
     (case map_of kvs (KInt (int i)) of
        Some v \<Rightarrow> Inr v
      | None \<Rightarrow> Inl (Exc KeyError ''key''))"
| "py_getitem v i = Inl (Exc TypeError ''object is not subscriptable'')"

text \<open>
  \<open>float(v)\<close>. An integer converts when its nearest double is finite, that is when its
  magnitude is below \<open>2^1024 - 2^970\<close>; from there on \<open>float\<close> raises
  \<open>OverflowError\<close>.
\<close>

definition float_int_limit :: int where
  "float_int_limit = 2 ^ 1024 - 2 ^ 970"

fun py_float :: "env \<Rightarrow> pyval \<Rightarrow> exc + real" where
  "py_float E (PInt i) =
     (if \<bar>i\<bar> < float_int_limit then Inr (of_int i)
      else Inl (Exc OverflowError ''int too large to convert to float''))"
| "py_float E (PFloat r) = Inr r"
| "py_float E (PBool b) = Inr (if b then 1 else 0)"
| "py_float E (PStr s) =
     (case float_of_str E s of
        Some r \<Rightarrow> Inr r
      | None \<Rightarrow> Inl (Exc ValueError ''could not convert string to float''))"
| "py_float E v = Inl (Exc TypeError ''float() argument must be a string or a real number'')"

text \<open>\<open>str(v)\<close>: a string is its own text; every other value is formatted by the builtin.\<close>

definition py_str :: "env \<Rightarrow> pyval \<Rightarrow> string" where
  "py_str E v = (case v of PStr s \<Rightarrow> s | _ \<Rightarrow> str E v)"

definition dict_get :: "pydict \<Rightarrow> pykey \<Rightarrow> pyval \<Rightarrow> pyval" where
  "dict_get d k dflt = (case map_of d k of Some v \<Rightarrow> v | None \<Rightarrow> dflt)"

definition keys :: "('k \<times> 'v) list \<Rightarrow> 'k set" where
  "keys d = fst ` set d"

section \<open>The GPS decoder (exif\_extractor.py)\<close>

text \<open>\<open>EXIFExtractor._convert_to_degrees\<close>.\<close>

definition convert_to_degrees :: "env \<Rightarrow> pyval \<Rightarrow> exc + real" where
  "convert_to_degrees E v =
     bindE (py_len v) (\<lambda>n.
       if n \<noteq> 3 then Inr 0
       else
         bindE (py_getitem v 0) (\<lambda>v0. bindE (py_float E v0) (\<lambda>d.
         bindE (py_getitem v 1) (\<lambda>v1. bindE (py_float E v1) (\<lambda>m.
         bindE (py_getitem v 2) (\<lambda>v2. bindE (py_float E v2) (\<lambda>s.
           Inr (d + (m / 60) + (s / 3600)))))))))"

text \<open>\<open>GPSTAGS.get(key, key)\<close>: the table is keyed by integers.\<close>

fun gps_decoded :: "env \<Rightarrow> pykey \<Rightarrow> pykey" where
  "gps_decoded E (KInt i) = (case GPSTAGS E i of Some n \<Rightarrow> KStr n | None \<Rightarrow> KInt i)"
| "gps_decoded E (KStr s) = KStr s"

text \<open>The first loop of \<open>_parse_gps_data\<close>: every entry stringified under its decoded name.\<close>

definition gps_stringify :: "env \<Rightarrow> pydict \<Rightarrow> pydict" where
  "gps_stringify E gps_info =
     fold (\<lambda>(key, v) gps_data. AList.update (gps_decoded E key) (PStr (py_str E v)) gps_data)
       gps_info []"

text \<open>
  The \<open>try\<close> block of \<open>_parse_gps_data\<close>: the bare \<open>except: pass\<close> returns the mapping
  as the loop left it.
\<close>

definition gps_decimal :: "env \<Rightarrow> pydict \<Rightarrow> pydict \<Rightarrow> pydict" where
  "gps_decimal E gps_info gps_data =
     (if KStr ''GPSLatitude'' \<in> keys gps_data \<and> KStr ''GPSLongitude'' \<in> keys gps_data then
        (case convert_to_degrees E (dict_get gps_info (KInt 2) (PList [])) of
           Inl e \<Rightarrow> gps_data
         | Inr lat \<Rightarrow>
            (case convert_to_degrees E (dict_get gps_info (KInt 4) (PList [])) of
               Inl e \<Rightarrow> gps_data
             | Inr lon \<Rightarrow>
                (let lat' = (if map_of gps_info (KInt 1) = Some (PStr ''S'') then - lat else lat);
                     lon' = (if map_of gps_info (KInt 3) = Some (PStr ''W'') then - lon else lon)
                 in AList.update (KStr ''DecimalLongitude'') (PFloat lon')
                      (AList.update (KStr ''DecimalLatitude'') (PFloat lat') gps_data))))
      else gps_data)"

text \<open>
  \<open>EXIFExtractor._parse_gps_data\<close>. A falsy argument gives the empty mapping; a truthy
  argument that is no dictionary has no \<open>items\<close>, and the \<open>AttributeError\<close> leaves
  the function (the loop is outside the \<open>try\<close>).
\<close>

definition parse_gps_data :: "env \<Rightarrow> pyval \<Rightarrow> exc + pydict" where
  "parse_gps_data E gps_info =
     (if \<not> truthy gps_info then Inr []
      else
        (case gps_info of
           PDict kvs \<Rightarrow> Inr (gps_decimal E kvs (gps_stringify E kvs))
         | _ \<Rightarrow> Inl (no_attribute gps_info ''items'')))"

section \<open>The extractor (exif\_extractor.py)\<close>

subsection \<open>Paths and supported extensions\<close>

text \<open>
  \<open>Path(p).suffix\<close> as pathlib defines it on POSIX paths: the final component is the
  last part that is neither empty nor a single dot, and its suffix starts at the last dot
  unless that dot is the component's first or last character. \<open>lower\<close> is
  \<open>str.lower\<close> on ASCII letters; \<open>os_basename\<close> is \<open>os.path.basename\<close>.
\<close>

fun split_slash :: "string \<Rightarrow> string list" where
  "split_slash [] = [[]]"
| "split_slash (c # cs) =
     (if c = CHR ''/'' then [] # split_slash cs
      else (case split_slash cs of [] \<Rightarrow> [[c]] | w # ws \<Rightarrow> (c # w) # ws))"

definition path_name :: "string \<Rightarrow> string" where
  "path_name p =
     (let parts = filter (\<lambda>w. w \<noteq> [] \<and> w \<noteq> ''.'') (split_slash p)
      in if parts = [] then [] else last parts)"

definition path_suffix :: "string \<Rightarrow> string" where
  "path_suffix p =
     (let name = path_name p;
          ext = rev (takeWhile (\<lambda>c. c \<noteq> CHR ''.'') (rev name))
      in if CHR ''.'' \<in> set name \<and> ext \<noteq> [] \<and> length ext + 1 < length name
         then CHR ''.'' # ext else [])"

definition lower_char :: "char \<Rightarrow> char" where
  "lower_char c =
     (case map_of (zip ''ABCDEFGHIJKLMNOPQRSTUVWXYZ'' ''abcdefghijklmnopqrstuvwxyz'') c of
        Some d \<Rightarrow> d
      | None \<Rightarrow> c)"

definition lower :: "string \<Rightarrow> string" where
  "lower s = map lower_char s"

definition os_basename :: "string \<Rightarrow> string" where
  "os_basename p = rev (takeWhile (\<lambda>c. c \<noteq> CHR ''/'') (rev p))"

definition supported_image_formats :: "string list" where
  "supported_image_formats = [''.jpg'', ''.jpeg'', ''.tiff'', ''.tif'', ''.png'', ''.bmp'', ''.gif'']"

definition supported_video_formats :: "string list" where
  "supported_video_formats = [''.mp4'', ''.avi'', ''.mov'', ''.mkv'', ''.wmv'']"

definition supported_audio_formats :: "string list" where
  "supported_audio_formats = [''.mp3'', ''.wav'', ''.flac'', ''.m4a'']"

text \<open>\<open>EXIFExtractor.is_supported_file\<close>.\<close>

definition is_supported_file :: "string \<Rightarrow> bool" where
  "is_supported_file file_path =
     (let ext = lower (path_suffix file_path)
      in ext \<in> set supported_image_formats \<union> set supported_video_formats
           \<union> set supported_audio_formats)"

subsection \<open>Records\<close>

text \<open>
  The dictionary an extraction returns has a fixed set of possible keys: a field is
  \<open>None\<close> when the key is absent. \<open>"error" in metadata\<close> is \<open>error md \<noteq> None\<close>.
\<close>

record metadata =
  file_info :: "pydict option"
  exif_data :: "pydict option"
  gps_data :: "pydict option"
  camera_info :: "pydict option"
  image_info :: "pydict option"
  video_info :: "pyval option"
  streams :: "pyval option"
  audio_info :: "pydict option"
  error :: "string option"

definition no_keys :: metadata where
  "no_keys = \<lparr> file_info = None, exif_data = None, gps_data = None, camera_info = None,
     image_info = None, video_info = None, streams = None, audio_info = None, error = None \<rparr>"

text \<open>The dictionary \<open>{"error": msg}\<close>.\<close>

definition error_only :: "string \<Rightarrow> metadata" where
  "error_only msg = no_keys \<lparr> error := Some msg \<rparr>"

text \<open>
  \<open>metadata[section][k] = v\<close>. Every handler creates the sections it writes to before
  its loop, so the section is there.
\<close>

definition setitem :: "pykey \<Rightarrow> pyval \<Rightarrow> pydict option \<Rightarrow> pydict option" where
  "setitem k v section = Some (AList.update k v (case section of Some d \<Rightarrow> d | None \<Rightarrow> []))"

definition has_key :: "pykey \<Rightarrow> pydict option \<Rightarrow> bool" where
  "has_key k section = (case section of Some d \<Rightarrow> k \<in> keys d | None \<Rightarrow> False)"

text \<open>\<open>EXIFExtractor._get_file_info\<close>: \<open>os.stat\<close> may raise.\<close>

definition get_file_info :: "env \<Rightarrow> string \<Rightarrow> exc + pydict" where
  "get_file_info E file_path =
     bindE (os_stat E file_path) (\<lambda>st.
       Inr [(KStr ''File Name'', PStr (os_basename file_path)),
            (KStr ''File Path'', PStr file_path),
            (KStr ''File Size'', PStr (format_comma E (st_size st) @ '' bytes'')),
            (KStr ''Created'', PStr (py_str E (PFloat (st_ctime st)))),
            (KStr ''Modified'', PStr (py_str E (PFloat (st_mtime st)))),
            (KStr ''Extension'', PStr (lower (path_suffix file_path)))])"

subsection \<open>Images\<close>

definition camera_tags :: "pykey list" where
  "camera_tags = [KStr ''Make'', KStr ''Model'', KStr ''LensMake'', KStr ''LensModel'']"

definition image_tags :: "pykey list" where
  "image_tags = [KStr ''ImageWidth'', KStr ''ImageLength'', KStr ''Orientation'', KStr ''ColorSpace'']"

text \<open>\<open>TAGS.get(tag_id, tag_id)\<close>.\<close>

definition tag_name :: "env \<Rightarrow> int \<Rightarrow> pykey" where
  "tag_name E tag_id = (case TAGS E tag_id of Some n \<Rightarrow> KStr n | None \<Rightarrow> KInt tag_id)"

text \<open>
  One pass of the loop over \<open>exif_dict.items()\<close> in \<open>_extract_image_exif\<close>. Only the
  GPS decoder can raise, and it does so before \<open>metadata\<close> is written.
\<close>

definition image_tag_step :: "env \<Rightarrow> int \<Rightarrow> pyval \<Rightarrow> metadata \<Rightarrow> exc + metadata" where
  "image_tag_step E tag_id v md =
     (let tag = tag_name E tag_id in
      if tag = KStr ''GPSInfo'' then
        bindE (parse_gps_data E v) (\<lambda>g. Inr (md \<lparr> gps_data := Some g \<rparr>))
      else if tag \<in> set camera_tags then
        Inr (md \<lparr> camera_info := setitem tag (PStr (py_str E v)) (camera_info md) \<rparr>)
      else if tag \<in> set image_tags then
        Inr (md \<lparr> image_info := setitem tag (PStr (py_str E v)) (image_info md) \<rparr>)
      else
        Inr (md \<lparr> exif_data := setitem tag (PStr (py_str E v)) (exif_data md) \<rparr>))"

text \<open>
  The loop: an exception stops it, and the dictionary keeps what the earlier passes
  wrote. The result is the exception, if any, and the dictionary at that point.
\<close>

fun image_tags_loop :: "env \<Rightarrow> (int \<times> pyval) list \<Rightarrow> metadata \<Rightarrow> exc option \<times> metadata" where
  "image_tags_loop E [] md = (None, md)"
| "image_tags_loop E ((tag_id, v) # rest) md =
     (case image_tag_step E tag_id v md of
        Inl e \<Rightarrow> (Some e, md)
      | Inr md' \<Rightarrow> image_tags_loop E rest md')"

text \<open>\<open>metadata["image_info"].update({"Format": ..., "Mode": ..., "Size": ...})\<close>.\<close>

definition image_basic_info :: "env \<Rightarrow> pil_image \<Rightarrow> metadata \<Rightarrow> metadata" where
  "image_basic_info E img md =
     md \<lparr> image_info :=
       setitem (KStr ''Size'')
         (PStr (py_str E (PInt (fst (img_size img))) @ ''x'' @ py_str E (PInt (snd (img_size img)))))
         (setitem (KStr ''Mode'') (img_mode img)
           (setitem (KStr ''Format'') (img_format img) (image_info md))) \<rparr>"

text \<open>The loop over the tags of exifread: a key already in \<open>exif_data\<close> is skipped.\<close>

definition exifread_merge :: "env \<Rightarrow> (string \<times> pyval) list \<Rightarrow> metadata \<Rightarrow> metadata" where
  "exifread_merge E tags md =
     fold (\<lambda>(key, v) md.
             if \<not> has_key (KStr key) (exif_data md)
             then md \<lparr> exif_data := setitem (KStr key) (PStr (py_str E v)) (exif_data md) \<rparr>
             else md)
       tags md"

text \<open>The body of the \<open>try\<close> of \<open>_extract_image_exif\<close>.\<close>

definition image_try :: "env \<Rightarrow> string \<Rightarrow> metadata \<Rightarrow> exc option \<times> metadata" where
  "image_try E file_path md =
     (case Image_open E file_path of
        Inl e \<Rightarrow> (Some e, md)
      | Inr img \<Rightarrow>
         (case getexif img of
            Inl e \<Rightarrow> (Some e, md)
          | Inr exif_dict \<Rightarrow>
             (case (case exif_dict of
                      None \<Rightarrow> (None, md)
                    | Some items \<Rightarrow> image_tags_loop E items md) of
                (Some e, md1) \<Rightarrow> (Some e, md1)
              | (None, md1) \<Rightarrow>
                 (let md2 = image_basic_info E img md1 in
                  case exifread_process_file E file_path of
                    Inl e \<Rightarrow> (Some e, md2)
                  | Inr tags \<Rightarrow> (None, exifread_merge E tags md2)))))"

text \<open>
  \<open>EXIFExtractor._extract_image_exif\<close>. \<open>_get_file_info\<close> is called before the
  \<open>try\<close>: its exception leaves the function.
\<close>

definition extract_image_exif :: "env \<Rightarrow> string \<Rightarrow> exc + metadata" where
  "extract_image_exif E file_path =
     bindE (get_file_info E file_path) (\<lambda>fi.
       let md0 = no_keys \<lparr> file_info := Some fi, exif_data := Some [], gps_data := Some [],
                   camera_info := Some [], image_info := Some [] \<rparr>
       in Inr (case image_try E file_path md0 of
                 (None, md) \<Rightarrow> md
               | (Some e, md) \<Rightarrow>
                   md \<lparr> error := Some (''Error reading image EXIF: '' @ exc_msg e) \<rparr>))"

subsection \<open>Video\<close>

text \<open>
  The inner \<open>try\<close> of \<open>_extract_video_exif\<close>: the probe, and the decoding of its
  output when it exits with 0. \<open>get\<close> on a decoded value that is no dictionary raises
  before anything is stored.
\<close>

definition video_probe :: "env \<Rightarrow> string \<Rightarrow> metadata \<Rightarrow> exc option \<times> metadata" where
  "video_probe E file_path md =
     (case ffprobe_run E file_path of
        Inl e \<Rightarrow> (Some e, md)
      | Inr (returncode, stdout) \<Rightarrow>
         (if returncode = 0 then
            (case json_loads E stdout of
               Inl e \<Rightarrow> (Some e, md)
             | Inr (PDict ffprobe_data) \<Rightarrow>
                 (None, md \<lparr> video_info := Some (dict_get ffprobe_data (KStr ''format'') (PDict [])),
                             streams := Some (dict_get ffprobe_data (KStr ''streams'') (PList [])) \<rparr>)
             | Inr v \<Rightarrow> (Some (no_attribute v ''get''), md))
          else (None, md)))"

text \<open>\<open>EXIFExtractor._extract_video_exif\<close>.\<close>

definition extract_video_exif :: "env \<Rightarrow> string \<Rightarrow> exc + metadata" where
  "extract_video_exif E file_path =
     bindE (get_file_info E file_path) (\<lambda>fi.
       let md0 = no_keys \<lparr> file_info := Some fi, video_info := Some (PDict []),
                   exif_data := Some [] \<rparr>
       in Inr (case video_probe E file_path md0 of
                 (None, md) \<Rightarrow> md
               | (Some e, md) \<Rightarrow>
                   (if exc_cls e = FileNotFoundError \<or> exc_cls e = TimeoutExpired then md
                    else md \<lparr> error := Some (''Error reading video metadata: '' @ exc_msg e) \<rparr>)))"

subsection \<open>Audio\<close>

text \<open>\<open>str(value[0]) if isinstance(value, list) else str(value)\<close>.\<close>

definition audio_tag_text :: "env \<Rightarrow> pyval \<Rightarrow> exc + string" where
  "audio_tag_text E v =
     (case v of
        PList xs \<Rightarrow> bindE (py_getitem (PList xs) 0) (\<lambda>x. Inr (py_str E x))
      | _ \<Rightarrow> Inr (py_str E v))"

fun audio_tags_loop :: "env \<Rightarrow> (string \<times> pyval) list \<Rightarrow> metadata \<Rightarrow> exc option \<times> metadata" where
  "audio_tags_loop E [] md = (None, md)"
| "audio_tags_loop E ((key, v) # rest) md =
     (case audio_tag_text E v of
        Inl e \<Rightarrow> (Some e, md)
      | Inr s \<Rightarrow>
          audio_tags_loop E rest (md \<lparr> exif_data := setitem (KStr key) (PStr s) (exif_data md) \<rparr>))"

text \<open>The inner \<open>try\<close> of \<open>_extract_audio_exif\<close>, entered for \<open>.mp3\<close> only.\<close>

definition audio_mp3 :: "env \<Rightarrow> string \<Rightarrow> metadata \<Rightarrow> exc option \<times> metadata" where
  "audio_mp3 E file_path md =
     (case mutagen_import E of
        Some e \<Rightarrow> (Some e, md)
      | None \<Rightarrow>
         (case mutagen_MP3 E file_path of
            Inl e \<Rightarrow> (Some e, md)
          | Inr audio \<Rightarrow>
             (let md1 = md \<lparr> audio_info := Some
                    [(KStr ''Length'', PStr (format_2f E (info_length audio) @ '' seconds'')),
                     (KStr ''Bitrate'', PStr (py_str E (PInt (info_bitrate audio)) @ '' bps'')),
                     (KStr ''Sample Rate'', PStr (py_str E (PInt (info_sample_rate audio)) @ '' Hz''))] \<rparr>
              in case mp3_tags audio of
                   None \<Rightarrow> (None, md1)
                 | Some tags \<Rightarrow> audio_tags_loop E tags md1)))"

text \<open>\<open>EXIFExtractor._extract_audio_exif\<close>.\<close>

definition extract_audio_exif :: "env \<Rightarrow> string \<Rightarrow> exc + metadata" where
  "extract_audio_exif E file_path =
     bindE (get_file_info E file_path) (\<lambda>fi.
       let md0 = no_keys \<lparr> file_info := Some fi, audio_info := Some [], exif_data := Some [] \<rparr>
       in Inr (if lower (path_suffix file_path) = ''.mp3'' then
                 (case audio_mp3 E file_path md0 of
                    (None, md) \<Rightarrow> md
                  | (Some e, md) \<Rightarrow>
                      (if exc_cls e = ImportError then
                         md \<lparr> error := Some ''Install mutagen library for full audio metadata support'' \<rparr>
                       else md \<lparr> error := Some (''Error reading audio metadata: '' @ exc_msg e) \<rparr>))
               else md0))"

subsection \<open>Dispatch\<close>

text \<open>
  \<open>EXIFExtractor.extract_exif_data\<close>. The result is a sum so that returning is a
  statement about the function: \<open>Inl\<close> would be an exception that reaches the caller.
\<close>

definition extract_exif_data :: "env \<Rightarrow> string \<Rightarrow> exc + metadata" where
  "extract_exif_data E file_path =
     (if \<not> path_exists E file_path then Inr (error_only ''File not found'')
      else
        (let ext = lower (path_suffix file_path) in
         case (if ext \<in> set supported_image_formats then extract_image_exif E file_path
               else if ext \<in> set supported_video_formats then extract_video_exif E file_path
               else if ext \<in> set supported_audio_formats then extract_audio_exif E file_path
               else Inr (error_only ''Unsupported file format'')) of
           Inr md \<Rightarrow> Inr md
         | Inl e \<Rightarrow> Inr (error_only (''Failed to extract EXIF data: '' @ exc_msg e))))"

section \<open>Bulk processing (file\_processor.py)\<close>

text \<open>
  \<open>as_completed\<close> hands the futures over in the order the workers finish, which the
  program does not choose. The schedule is a list of choices: each one picks, among the
  futures still pending, the next to complete; when the choices run out the rest complete
  in submission order. Every choice list gives a permutation of the futures, and every
  permutation is given by some choice list.
\<close>

function as_completed :: "nat list \<Rightarrow> 'a list \<Rightarrow> 'a list" where
  "as_completed cs [] = []"
| "as_completed [] (x # xs) = x # xs"
| "as_completed (c # cs) (x # xs) =
     ((x # xs) ! (c mod length (x # xs)))
       # as_completed cs (take (c mod length (x # xs)) (x # xs)
                            @ drop (Suc (c mod length (x # xs))) (x # xs))"
  by pat_completeness auto
termination
  by (relation "measure (\<lambda>(cs, xs). length xs)") auto

text \<open>
  What the loop stores for a finished future: its result, or for an exception of the
  task the dictionary \<open>{"error": "Exception occurred: ..."}\<close>.
\<close>

definition task_record :: "exc + metadata \<Rightarrow> metadata" where
  "task_record outcome =
     (case outcome of
        Inr result \<Rightarrow> result
      | Inl e \<Rightarrow> error_only (''Exception occurred: '' @ exc_msg e))"

text \<open>
  One pass of the loop over \<open>as_completed(future_to_file)\<close>. The progress callback is
  the caller's: it receives \<open>(completed, total)\<close>, changes the caller's state, and may
  raise. It is called outside the \<open>try\<close>, so its exception leaves the loop.
\<close>

definition completion_step ::
  "(nat \<Rightarrow> nat \<Rightarrow> 's \<Rightarrow> exc + 's) option \<Rightarrow> nat \<Rightarrow> string \<times> (exc + metadata)
     \<Rightarrow> (string \<times> metadata) list \<times> nat \<times> 's
     \<Rightarrow> exc + (string \<times> metadata) list \<times> nat \<times> 's" where
  "completion_step progress_callback n_total fut st =
     (case st of (results, completed, sink) \<Rightarrow>
        (let results' = AList.update (fst fut) (task_record (snd fut)) results;
             completed' = completed + 1
         in case progress_callback of
              None \<Rightarrow> Inr (results', completed', sink)
            | Some f \<Rightarrow>
               (case f completed' n_total sink of
                  Inl e \<Rightarrow> Inl e
                | Inr sink' \<Rightarrow> Inr (results', completed', sink'))))"

fun completion_loop ::
  "(nat \<Rightarrow> nat \<Rightarrow> 's \<Rightarrow> exc + 's) option \<Rightarrow> nat \<Rightarrow> (string \<times> (exc + metadata)) list
     \<Rightarrow> (string \<times> metadata) list \<times> nat \<times> 's
     \<Rightarrow> exc + (string \<times> metadata) list \<times> nat \<times> 's" where
  "completion_loop progress_callback n_total [] st = Inr st"
| "completion_loop progress_callback n_total (fut # rest) st =
     (case completion_step progress_callback n_total fut st of
        Inl e \<Rightarrow> Inl e
      | Inr st' \<Rightarrow> completion_loop progress_callback n_total rest st')"

text \<open>
  \<open>FileProcessor.process_files\<close>, over the extraction function of \<open>self.extractor\<close>.
  It returns the result map and the state the callback left, or \<open>Inl\<close> of the exception
  that reaches the caller.
\<close>

definition process_files_with ::
  "(string \<Rightarrow> exc + metadata) \<Rightarrow> nat list \<Rightarrow> string list
     \<Rightarrow> (nat \<Rightarrow> nat \<Rightarrow> 's \<Rightarrow> exc + 's) option \<Rightarrow> 's
     \<Rightarrow> exc + (string \<times> metadata) list \<times> 's" where
  "process_files_with extract sched file_paths progress_callback sink =
     (if length file_paths = 0 then Inr ([], sink)
      else
        (let supported_files = filter is_supported_file file_paths;
             future_to_file = map (\<lambda>file_path. (file_path, extract file_path)) supported_files
         in case completion_loop progress_callback (length supported_files)
                   (as_completed sched future_to_file) ([], 0, sink) of
              Inl e \<Rightarrow> Inl e
            | Inr (results, completed, sink') \<Rightarrow> Inr (results, sink')))"

definition process_files ::
  "env \<Rightarrow> nat list \<Rightarrow> string list
     \<Rightarrow> (nat \<Rightarrow> nat \<Rightarrow> 's \<Rightarrow> exc + 's) option \<Rightarrow> 's
     \<Rightarrow> exc + (string \<times> metadata) list \<times> 's" where
  "process_files E = process_files_with (extract_exif_data E)"

text \<open>
  A callback that returns: it changes the caller's state by \<open>f\<close> and raises nothing.
  \<open>log_progress\<close> appends its arguments to a log.
\<close>

definition returning :: "(nat \<Rightarrow> nat \<Rightarrow> 's \<Rightarrow> 's) \<Rightarrow> nat \<Rightarrow> nat \<Rightarrow> 's \<Rightarrow> exc + 's" where
  "returning f completed n_total sink = Inr (f completed n_total sink)"



text \<open>\<open>FileProcessor.filter_geotagged_files\<close>.\<close>

definition geotag_test :: "metadata \<Rightarrow> bool" where
  "geotag_test md =
     (case gps_data md of
        None \<Rightarrow> False
      | Some g \<Rightarrow> g \<noteq> [] \<and> KStr ''DecimalLatitude'' \<in> keys g \<and> KStr ''DecimalLongitude'' \<in> keys g)"

definition filter_geotagged_files :: "(string \<times> metadata) list \<Rightarrow> (string \<times> metadata) list" where
  "filter_geotagged_files results =
     fold (\<lambda>(file_path, md) geotagged.
             if geotag_test md then AList.update file_path md geotagged else geotagged)
       results []"

section \<open>Export (exporter.py)\<close>

text \<open>
  The files written by the exporter: a CSV document is its header and its rows, cell by
  cell. The state of the file system is a map from paths to contents.
\<close>

datatype file_content = CsvFile "string list" "string list list" | OtherFile string

type_synonym fs = "string \<Rightarrow> file_content option"

definition key_text :: "env \<Rightarrow> pykey \<Rightarrow> string" where
  "key_text E k = (case k of KStr s \<Rightarrow> s | KInt i \<Rightarrow> py_str E (PInt i))"

text \<open>One of the five blocks that copy a section into the row, under a prefix.\<close>

definition add_section ::
  "env \<Rightarrow> string \<Rightarrow> pydict option \<Rightarrow> (string \<times> string) list \<Rightarrow> (string \<times> string) list" where
  "add_section E prefix section row =
     (case section of
        None \<Rightarrow> row
      | Some d \<Rightarrow> fold (\<lambda>(key, v) row. AList.update (prefix @ key_text E key) (py_str E v) row) d row)"

definition csv_row :: "env \<Rightarrow> string \<Rightarrow> metadata \<Rightarrow> (string \<times> string) list" where
  "csv_row E file_path md =
     add_section E ''Image_'' (image_info md)
       (add_section E ''Camera_'' (camera_info md)
         (add_section E ''GPS_'' (gps_data md)
           (add_section E ''EXIF_'' (exif_data md)
             (add_section E ''File_'' (file_info md) [(''File Path'', file_path)]))))"

definition flatten :: "env \<Rightarrow> (string \<times> metadata) list \<Rightarrow> (string \<times> string) list list" where
  "flatten E data =
     map (\<lambda>(file_path, md). csv_row E file_path md)
       (filter (\<lambda>(file_path, md). error md = None) data)"

text \<open>
  \<open>DataExporter._export_csv\<close>: the returned flag and the file system afterwards.
  A failing \<open>open\<close> is caught by the \<open>except\<close> of the function.
\<close>

definition export_csv :: "env \<Rightarrow> (string \<times> metadata) list \<Rightarrow> string \<Rightarrow> fs \<Rightarrow> bool \<times> fs" where
  "export_csv E data output_path files =
     (let flattened_data = flatten E data in
      if flattened_data = [] then (False, files)
      else
        (case open_write E output_path of
           Some e \<Rightarrow> (False, files)
         | None \<Rightarrow>
            (let fieldnames = sort (remdups (concat (map (map fst) flattened_data)))
             in (True,
                 files (output_path \<mapsto>
                   CsvFile fieldnames
                     (map (\<lambda>row. map (\<lambda>f. case map_of row f of Some v \<Rightarrow> v | None \<Rightarrow> []) fieldnames)
                        flattened_data))))))"

definition supported_formats :: "string list" where
  "supported_formats = [''json'', ''csv'', ''txt'']"

text \<open>
  \<open>DataExporter.export_data\<close>, over the JSON and the text writer, which are not
  embedded here: like \<open>_export_csv\<close> each catches every exception and returns a flag.
  \<open>Inl\<close> is the \<open>ValueError\<close> raised to the caller.
\<close>

definition export_data ::
  "env \<Rightarrow> ((string \<times> metadata) list \<Rightarrow> string \<Rightarrow> fs \<Rightarrow> bool \<times> fs)
     \<Rightarrow> ((string \<times> metadata) list \<Rightarrow> string \<Rightarrow> fs \<Rightarrow> bool \<times> fs)
     \<Rightarrow> (string \<times> metadata) list \<Rightarrow> string \<Rightarrow> string \<Rightarrow> fs \<Rightarrow> exc + bool \<times> fs" where
  "export_data E export_json export_txt data output_path format_type files =
     (let format_type = lower format_type in
      if format_type \<notin> set supported_formats then
        Inl (Exc ValueError (''Unsupported format: '' @ format_type))
      else
        Inr (if format_type = ''json'' then export_json data output_path files
             else if format_type = ''csv'' then export_csv E data output_path files
             else if format_type = ''txt'' then export_txt data output_path files
             else (False, files)))"

section \<open>Notions used to state the properties\<close>

text \<open>
  A number that \<open>float\<close> converts (an integer within the range of a double, or a
  float), and the value \<open>float\<close> gives it; the items of a list or tuple.
\<close>

fun numeric :: "pyval \<Rightarrow> bool" where
  "numeric (PInt i) = (\<bar>i\<bar> < float_int_limit)"
| "numeric (PFloat r) = True"
| "numeric v = False"

fun num_val :: "pyval \<Rightarrow> real" where
  "num_val (PInt i) = of_int i"
| "num_val (PFloat r) = r"
| "num_val v = 0"

fun seq_items :: "pyval \<Rightarrow> pyval list option" where
  "seq_items (PList xs) = Some xs"
| "seq_items (PTuple xs) = Some xs"
| "seq_items v = None"

text \<open>The range invariant of the decimal fields, as the specification words it.\<close>

fun lat_in_range :: "pyval \<Rightarrow> bool" where
  "lat_in_range (PFloat x) = (- 90 \<le> x \<and> x \<le> 90)"
| "lat_in_range v = False"

fun lon_in_range :: "pyval \<Rightarrow> bool" where
  "lon_in_range (PFloat x) = (- 180 \<le> x \<and> x \<le> 180)"
| "lon_in_range v = False"

definition decimal_in_range :: "pydict \<Rightarrow> bool" where
  "decimal_in_range g =
     (case map_of g (KStr ''DecimalLatitude'') of
        None \<Rightarrow> True
      | Some la \<Rightarrow>
         (case map_of g (KStr ''DecimalLongitude'') of
            None \<Rightarrow> True
          | Some lo \<Rightarrow> lat_in_range la \<and> lon_in_range lo))"

text \<open>
  The shapes of a record. The specification names two: the successful field set without
  \<open>error\<close>, and \<open>error\<close> with every other field absent or empty. The code has a
  third: \<open>error\<close> beside the fields a handler had filled when its source failed.
\<close>

definition absent_or_empty :: "pydict option \<Rightarrow> bool" where
  "absent_or_empty section = (section = None \<or> section = Some [])"

definition absent_or_falsy :: "pyval option \<Rightarrow> bool" where
  "absent_or_falsy field = (case field of None \<Rightarrow> True | Some v \<Rightarrow> \<not> truthy v)"

definition successful_shape :: "metadata \<Rightarrow> bool" where
  "successful_shape md = (error md = None \<and> \<not> absent_or_empty (file_info md))"

definition error_shape :: "metadata \<Rightarrow> bool" where
  "error_shape md =
     (error md \<noteq> None \<and> absent_or_empty (file_info md) \<and> absent_or_empty (exif_data md)
      \<and> absent_or_empty (gps_data md) \<and> absent_or_empty (camera_info md)
      \<and> absent_or_empty (image_info md) \<and> absent_or_falsy (video_info md)
      \<and> absent_or_falsy (streams md) \<and> absent_or_empty (audio_info md))"

definition partial_shape :: "metadata \<Rightarrow> bool" where
  "partial_shape md = (error md \<noteq> None \<and> \<not> absent_or_empty (file_info md))"

text \<open>The tag names the primary classification keeps out of \<open>exif_data\<close>.\<close>

definition claimed_tags :: "pykey list" where
  "claimed_tags = camera_tags @ image_tags @ [KStr ''GPSInfo'']"

text \<open>
  exifread names every tag \<open><IFD> <Tag>\<close>, for example \<open>Image Make\<close> or
  \<open>GPS GPSLatitude\<close>: the directory is the text before the first space, the tag name
  the text after it. A key of \<open>exif_data\<close> names a tag claimed elsewhere when it is one
  of the claimed names itself, or such a key whose tag name is claimed by \<open>camera_info\<close>
  or \<open>image_info\<close>, or whose directory is the GPS directory. The invariant of the
  specification says that \<open>exif_data\<close> has no such key.
\<close>

definition exifread_ifd :: "string \<Rightarrow> string" where
  "exifread_ifd key = takeWhile (\<lambda>c. c \<noteq> CHR '' '') key"

definition exifread_tag :: "string \<Rightarrow> string" where
  "exifread_tag key = drop 1 (dropWhile (\<lambda>c. c \<noteq> CHR '' '') key)"

fun names_claimed_tag :: "pykey \<Rightarrow> bool" where
  "names_claimed_tag (KInt i) = False"
| "names_claimed_tag (KStr s) =
     (KStr s \<in> set claimed_tags
      \<or> (CHR '' '' \<in> set s
          \<and> (KStr (exifread_tag s) \<in> set (camera_tags @ image_tags)
              \<or> exifread_ifd s = ''GPS'')))"

definition exif_invariant :: "metadata \<Rightarrow> bool" where
  "exif_invariant md =
     (case exif_data md of
        None \<Rightarrow> True
      | Some d \<Rightarrow> list_all (\<lambda>(k, v). \<not> names_claimed_tag k) d)"

text \<open>
  What the two sources contribute to \<open>exif_data\<close>, as maps: the primary source every
  tag whose name is not claimed, stringified, a later tag of the same name replacing an
  earlier one; the secondary source every key it returns, stringified.
\<close>

definition primary_exif :: "env \<Rightarrow> (int \<times> pyval) list \<Rightarrow> pykey \<Rightarrow> pyval option" where
  "primary_exif E items =
     map_of (rev (map (\<lambda>(tag_id, v). (tag_name E tag_id, PStr (py_str E v)))
                    (filter (\<lambda>(tag_id, v). tag_name E tag_id \<notin> set claimed_tags) items)))"

definition secondary_exif :: "env \<Rightarrow> (string \<times> pyval) list \<Rightarrow> pykey \<Rightarrow> pyval option" where
  "secondary_exif E tags = map_of (map (\<lambda>(key, v). (KStr key, PStr (py_str E v))) tags)"

text \<open>
  The failure a handler meets first, told from the sources alone. For an image: Pillow
  cannot open the file, \<open>_getexif\<close> raises, the GPS decoder raises on the value of a
  \<open>GPSInfo\<close> tag, or exifread raises. For a video: the probe or the decoding of its
  output raises anything but the two soft failures, or the decoded output is no
  dictionary. For an \<open>.mp3\<close>: the import or mutagen raises, or a tag value is an empty
  list.
\<close>

definition exif_items :: "(int \<times> pyval) list option \<Rightarrow> (int \<times> pyval) list" where
  "exif_items exif_dict = (case exif_dict of None \<Rightarrow> [] | Some items \<Rightarrow> items)"

fun first_gps_failure :: "env \<Rightarrow> (int \<times> pyval) list \<Rightarrow> exc option" where
  "first_gps_failure E [] = None"
| "first_gps_failure E ((tag_id, v) # rest) =
     (if tag_name E tag_id = KStr ''GPSInfo'' then
        (case parse_gps_data E v of
           Inl e \<Rightarrow> Some e
         | Inr g \<Rightarrow> first_gps_failure E rest)
      else first_gps_failure E rest)"

definition image_failure :: "env \<Rightarrow> string \<Rightarrow> exc option" where
  "image_failure E file_path =
     (case Image_open E file_path of
        Inl e \<Rightarrow> Some e
      | Inr img \<Rightarrow>
         (case getexif img of
            Inl e \<Rightarrow> Some e
          | Inr exif_dict \<Rightarrow>
             (case first_gps_failure E (exif_items exif_dict) of
                Some e \<Rightarrow> Some e
              | None \<Rightarrow>
                 (case exifread_process_file E file_path of
                    Inl e \<Rightarrow> Some e
                  | Inr tags \<Rightarrow> None))))"

definition soft_failure :: "exc \<Rightarrow> bool" where
  "soft_failure e = (exc_cls e = FileNotFoundError \<or> exc_cls e = TimeoutExpired)"

definition hard :: "exc \<Rightarrow> exc option" where
  "hard e = (if soft_failure e then None else Some e)"

definition video_failure :: "env \<Rightarrow> string \<Rightarrow> exc option" where
  "video_failure E file_path =
     (case ffprobe_run E file_path of
        Inl e \<Rightarrow> hard e
      | Inr (returncode, stdout) \<Rightarrow>
         (if returncode \<noteq> 0 then None
          else
            (case json_loads E stdout of
               Inl e \<Rightarrow> hard e
             | Inr v \<Rightarrow> (case v of PDict d \<Rightarrow> None | _ \<Rightarrow> hard (no_attribute v ''get'')))))"

fun first_tag_failure :: "(string \<times> pyval) list \<Rightarrow> exc option" where
  "first_tag_failure [] = None"
| "first_tag_failure ((key, v) # rest) =
     (if v = PList [] then Some (Exc IndexError ''list index out of range'')
      else first_tag_failure rest)"

definition audio_failure :: "env \<Rightarrow> string \<Rightarrow> exc option" where
  "audio_failure E file_path =
     (if lower (path_suffix file_path) \<noteq> ''.mp3'' then None
      else
        (case mutagen_import E of
           Some e \<Rightarrow> Some e
         | None \<Rightarrow>
            (case mutagen_MP3 E file_path of
               Inl e \<Rightarrow> Some e
             | Inr audio \<Rightarrow>
                (case mp3_tags audio of
                   None \<Rightarrow> None
                 | Some tags \<Rightarrow> first_tag_failure tags))))"

definition audio_error_text :: "exc \<Rightarrow> string" where
  "audio_error_text e =
     (if exc_cls e = ImportError then ''Install mutagen library for full audio metadata support''
      else ''Error reading audio metadata: '' @ exc_msg e)"

text \<open>A geotagged record, as the specification words it.\<close>

definition is_geotagged :: "metadata \<Rightarrow> bool" where
  "is_geotagged md =
     (has_key (KStr ''DecimalLatitude'') (gps_data md)
      \<and> has_key (KStr ''DecimalLongitude'') (gps_data md))"

section \<open>A sample world\<close>

text \<open>
  A small world on which the functions can be run: the tag tables of Pillow in excerpt,
  a directory with a geotagged photograph, an image Pillow cannot open, a video without
  a probe, a text file, and a path that does not exist.
\<close>

definition pil_tags :: "int \<Rightarrow> string option" where
  "pil_tags = map_of
     [(256, ''ImageWidth''), (257, ''ImageLength''), (271, ''Make''), (272, ''Model''),
      (274, ''Orientation''), (305, ''Software''), (33434, ''ExposureTime''),
      (34853, ''GPSInfo''), (40961, ''ColorSpace''), (42035, ''LensMake''),
      (42036, ''LensModel'')]"

definition pil_gpstags :: "int \<Rightarrow> string option" where
  "pil_gpstags = map_of
     [(0, ''GPSVersionID''), (1, ''GPSLatitudeRef''), (2, ''GPSLatitude''),
      (3, ''GPSLongitudeRef''), (4, ''GPSLongitude''), (5, ''GPSAltitudeRef''),
      (6, ''GPSAltitude''), (7, ''GPSTimeStamp'')]"

fun sample_str :: "pyval \<Rightarrow> string" where
  "sample_str (PStr s) = s"
| "sample_str (PInt i) = (if i = 0 then ''0'' else ''n'')"
| "sample_str v = ''v''"

definition sample_gps :: pyval where
  "sample_gps = PDict [(KInt 1, PStr ''N''), (KInt 2, PTuple [PInt 40, PInt 26, PInt 46]),
                       (KInt 3, PStr ''W''), (KInt 4, PTuple [PInt 79, PInt 56, PInt 55])]"

definition sample_image :: pil_image where
  "sample_image = \<lparr> getexif = Inr (Some [(271, PStr ''Canon''), (34853, sample_gps),
                                            (305, PStr ''fw'')]),
                     img_format = PStr ''JPEG'', img_mode = PStr ''RGB'', img_size = (0, 0) \<rparr>"

definition env0 :: env where
  "env0 = \<lparr> str = sample_str, float_of_str = (\<lambda>s. None), format_comma = (\<lambda>n. ''n''),
     format_2f = (\<lambda>r. ''r''), TAGS = pil_tags, GPSTAGS = pil_gpstags,
     path_exists = (\<lambda>p. p \<in> set [''a.jpg'', ''b.jpg'', ''c.mp4'', ''d.txt'']),
     os_stat = (\<lambda>p. Inr \<lparr> st_size = 0, st_ctime = 0, st_mtime = 0 \<rparr>),
     Image_open = (\<lambda>p. if p = ''a.jpg'' then Inr sample_image else Inl (Exc OSError ''bad'')),
     exifread_process_file = (\<lambda>p. Inr [(''Image Make'', PStr ''Canon''),
                                       (''GPS GPSLatitude'', PStr ''[40, 26, 46]'')]),
     ffprobe_run = (\<lambda>p. Inl (Exc FileNotFoundError ''ffprobe'')),
     json_loads = (\<lambda>s. Inr PNone), mutagen_import = None,
     mutagen_MP3 = (\<lambda>p. Inl (Exc OtherError ''mp3'')),
     isdir = (\<lambda>p. p = ''/''),
     glob = (\<lambda>p r. [''d.txt'', ''c.mp4'', ''a.jpg'', ''dir.png'']),
     is_file = (\<lambda>p. p \<noteq> ''dir.png''),
     open_write = (\<lambda>p. None) \<rparr>"

text \<open>A callback that raises at its second call.\<close>

definition failing_callback :: "nat \<Rightarrow> nat \<Rightarrow> unit \<Rightarrow> exc + unit" where
  "failing_callback completed n_total sink =
     (if completed = 2 then Inl (Exc OtherError ''callback'') else Inr sink)"

section \<open>Properties of the GPS decoder\<close>

lemma keys_Nil: "keys [] = {}"
  by (simp add: keys_def)

lemma keys_Cons: "keys ((k, v) # d) = insert k (keys d)"
  by (simp add: keys_def)

lemma keys_update: "keys (AList.update k v d) = insert k (keys d)"
  by (simp add: keys_def AList.dom_update)

lemma map_of_in_keys: "map_of kvs k = Some v \<Longrightarrow> k \<in> keys kvs"
  by (auto simp: keys_def dest: map_of_SomeD intro: rev_image_eqI)

lemma map_of_notin_keys: "k \<notin> keys d \<Longrightarrow> map_of d k = None"
  by (simp add: keys_def map_of_eq_None_iff)

lemma keys_fold_stringify:
  "keys (fold (\<lambda>(key, v) acc. AList.update (gps_decoded E key) (PStr (py_str E v)) acc) kvs acc0)
     = gps_decoded E ` keys kvs \<union> keys acc0"
proof (induction kvs arbitrary: acc0)
  case Nil
  show ?case by (simp add: keys_Nil)
next
  case (Cons p kvs)
  obtain k v where p: "p = (k, v)" by (cases p)
  show ?case by (simp add: p Cons.IH keys_Cons keys_update)
qed

lemma keys_gps_stringify: "keys (gps_stringify E kvs) = gps_decoded E ` keys kvs"
  by (simp add: gps_stringify_def keys_fold_stringify keys_Nil)

lemma py_float_numeric: "numeric v \<Longrightarrow> py_float E v = Inr (num_val v)"
  by (cases v) simp_all

lemma convert_numeric_triple:
  assumes "seq_items v = Some [d, m, s]" and "numeric d" and "numeric m" and "numeric s"
  shows "convert_to_degrees E v = Inr (num_val d + num_val m / 60 + num_val s / 3600)"
  using assms by (cases v) (simp_all add: convert_to_degrees_def bindE_def py_float_numeric)

lemma convert_malformed:
  "py_len v = Inr n \<Longrightarrow> n \<noteq> 3 \<Longrightarrow> convert_to_degrees E v = Inr 0"
  by (simp add: convert_to_degrees_def bindE_def)

lemma parse_gps_dict:
  "parse_gps_data E (PDict kvs) =
     Inr (if kvs = [] then [] else gps_decimal E kvs (gps_stringify E kvs))"
  by (simp add: parse_gps_data_def)

lemma parse_gps_decimal:
  assumes "GPSTAGS E 2 = Some ''GPSLatitude''" and "GPSTAGS E 4 = Some ''GPSLongitude''"
    and "map_of kvs (KInt 2) = Some tlat" and "map_of kvs (KInt 4) = Some tlon"
    and "convert_to_degrees E tlat = Inr lat" and "convert_to_degrees E tlon = Inr lon"
  shows "parse_gps_data E (PDict kvs) =
     Inr (AList.update (KStr ''DecimalLongitude'')
            (PFloat (if map_of kvs (KInt 3) = Some (PStr ''W'') then - lon else lon))
            (AList.update (KStr ''DecimalLatitude'')
               (PFloat (if map_of kvs (KInt 1) = Some (PStr ''S'') then - lat else lat))
               (gps_stringify E kvs)))"
proof -
  have k2: "KInt 2 \<in> keys kvs" and k4: "KInt 4 \<in> keys kvs"
    using assms(3,4) by (auto intro: map_of_in_keys)
  from k2 have ne: "kvs \<noteq> []" by (auto simp: keys_def)
  have "gps_decoded E (KInt 2) = KStr ''GPSLatitude''" using assms(1) by simp
  with k2 have la: "KStr ''GPSLatitude'' \<in> keys (gps_stringify E kvs)"
    unfolding keys_gps_stringify by (metis imageI)
  have "gps_decoded E (KInt 4) = KStr ''GPSLongitude''" using assms(2) by simp
  with k4 have lo: "KStr ''GPSLongitude'' \<in> keys (gps_stringify E kvs)"
    unfolding keys_gps_stringify by (metis imageI)
  show ?thesis
    using ne la lo assms(3-6)
    by (simp add: parse_gps_data_def gps_decimal_def dict_get_def Let_def)
qed

text \<open>
  C2, as stated, fails for integers beyond the range of a double: \<open>float\<close> raises
  \<open>OverflowError\<close>, the bare \<open>except\<close> swallows it, and the decimal fields are not
  added, although both triples have exactly three numeric components.
\<close>

theorem C2_overflow_counterexample:
  "parse_gps_data env0
     (PDict [(KInt 2, PTuple [PInt (10 ^ 400), PInt 0, PInt 0]),
             (KInt 4, PTuple [PInt 0, PInt 0, PInt 0])])
   = Inr [(KStr ''GPSLatitude'', PStr ''v''), (KStr ''GPSLongitude'', PStr ''v'')]
   \<and> map_of [(KStr ''GPSLatitude'', PStr ''v''), (KStr ''GPSLongitude'', PStr ''v'')]
         (KStr ''DecimalLatitude'') = None
   \<and> map_of [(KStr ''GPSLatitude'', PStr ''v''), (KStr ''GPSLongitude'', PStr ''v'')]
         (KStr ''DecimalLongitude'') = None"
  by (simp add: parse_gps_data_def gps_decimal_def gps_stringify_def keys_def dict_get_def
      convert_to_degrees_def bindE_def env0_def pil_gpstags_def py_str_def float_int_limit_def)

text \<open>
  C2, amended. When the GPS sub-mapping holds a latitude triple at index 2 and a
  longitude triple at index 4, each a list or tuple of exactly three numbers that
  \<open>float\<close> converts (floats, and integers of magnitude below \<open>2^1024 - 2^970\<close>),
  \<open>_parse_gps_data\<close> returns
  a mapping whose \<open>DecimalLatitude\<close> and \<open>DecimalLongitude\<close> are the floats
  \<open>d + m/60 + s/3600\<close>, negated exactly when the reference at index 1 is the string
  \<open>S\<close>, respectively the reference at index 3 the string \<open>W\<close>. For \<open>(40, 26, 46)\<close>
  north and \<open>(79, 56, 55)\<close> west the fields are within \<open>1e-4\<close> of \<open>40.446111\<close> and
  \<open>-79.948611\<close>. The tag table is the one of Pillow, which names index 2
  \<open>GPSLatitude\<close> and index 4 \<open>GPSLongitude\<close>.
\<close>

theorem C2_decimal_coordinates:
  assumes "GPSTAGS E 2 = Some ''GPSLatitude''" and "GPSTAGS E 4 = Some ''GPSLongitude''"
    and "map_of gps_info (KInt 2) = Some tlat" and "seq_items tlat = Some [d1, m1, s1]"
    and "map_of gps_info (KInt 4) = Some tlon" and "seq_items tlon = Some [d2, m2, s2]"
    and "numeric d1 \<and> numeric m1 \<and> numeric s1"
    and "numeric d2 \<and> numeric m2 \<and> numeric s2"
  shows "(\<exists>out. parse_gps_data E (PDict gps_info) = Inr out
      \<and> map_of out (KStr ''DecimalLatitude'') =
          Some (PFloat (if map_of gps_info (KInt 1) = Some (PStr ''S'')
                        then - (num_val d1 + num_val m1 / 60 + num_val s1 / 3600)
                        else num_val d1 + num_val m1 / 60 + num_val s1 / 3600))
      \<and> map_of out (KStr ''DecimalLongitude'') =
          Some (PFloat (if map_of gps_info (KInt 3) = Some (PStr ''W'')
                        then - (num_val d2 + num_val m2 / 60 + num_val s2 / 3600)
                        else num_val d2 + num_val m2 / 60 + num_val s2 / 3600)))
    \<and> (\<exists>out la lo.
          parse_gps_data E
            (PDict [(KInt 1, PStr ''N''), (KInt 2, PTuple [PInt 40, PInt 26, PInt 46]),
                    (KInt 3, PStr ''W''), (KInt 4, PTuple [PInt 79, PInt 56, PInt 55])])
            = Inr out
        \<and> map_of out (KStr ''DecimalLatitude'') = Some (PFloat la)
        \<and> map_of out (KStr ''DecimalLongitude'') = Some (PFloat lo)
        \<and> \<bar>la - 40.446111\<bar> < 1 / 10000 \<and> \<bar>lo - (- 79.948611)\<bar> < 1 / 10000)"
proof -
  have c1: "convert_to_degrees E tlat
      = Inr (num_val d1 + num_val m1 / 60 + num_val s1 / 3600)"
    using assms(4,7) by (simp add: convert_numeric_triple)
  have c2: "convert_to_degrees E tlon
      = Inr (num_val d2 + num_val m2 / 60 + num_val s2 / 3600)"
    using assms(6,8) by (simp add: convert_numeric_triple)
  note g = parse_gps_decimal [OF assms(1,2) assms(3,5) c1 c2]
  have first: "\<exists>out. parse_gps_data E (PDict gps_info) = Inr out
      \<and> map_of out (KStr ''DecimalLatitude'') =
          Some (PFloat (if map_of gps_info (KInt 1) = Some (PStr ''S'')
                        then - (num_val d1 + num_val m1 / 60 + num_val s1 / 3600)
                        else num_val d1 + num_val m1 / 60 + num_val s1 / 3600))
      \<and> map_of out (KStr ''DecimalLongitude'') =
          Some (PFloat (if map_of gps_info (KInt 3) = Some (PStr ''W'')
                        then - (num_val d2 + num_val m2 / 60 + num_val s2 / 3600)
                        else num_val d2 + num_val m2 / 60 + num_val s2 / 3600))"
    by (simp add: g AList.update_conv')
  let ?ex = "[(KInt 1, PStr ''N''), (KInt 2, PTuple [PInt 40, PInt 26, PInt 46]),
              (KInt 3, PStr ''W''), (KInt 4, PTuple [PInt 79, PInt 56, PInt 55])]"
  have e1: "convert_to_degrees E (PTuple [PInt 40, PInt 26, PInt 46]) = Inr (40 + 26 / 60 + 46 / 3600)"
    using convert_numeric_triple [of "PTuple [PInt 40, PInt 26, PInt 46]" "PInt 40" "PInt 26" "PInt 46" E]
    by (simp add: float_int_limit_def)
  have e2: "convert_to_degrees E (PTuple [PInt 79, PInt 56, PInt 55]) = Inr (79 + 56 / 60 + 55 / 3600)"
    using convert_numeric_triple [of "PTuple [PInt 79, PInt 56, PInt 55]" "PInt 79" "PInt 56" "PInt 55" E]
    by (simp add: float_int_limit_def)
  have m2: "map_of ?ex (KInt 2) = Some (PTuple [PInt 40, PInt 26, PInt 46])" by simp
  have m4: "map_of ?ex (KInt 4) = Some (PTuple [PInt 79, PInt 56, PInt 55])" by simp
  let ?la = "40 + 26 / 60 + 46 / 3600 :: real" and ?lo = "- (79 + 56 / 60 + 55 / 3600) :: real"
  let ?out = "AList.update (KStr ''DecimalLongitude'') (PFloat ?lo)
                (AList.update (KStr ''DecimalLatitude'') (PFloat ?la) (gps_stringify E ?ex))"
  have x: "parse_gps_data E (PDict ?ex) = Inr ?out"
    using parse_gps_decimal [OF assms(1,2) m2 m4 e1 e2] by simp
  have x1: "map_of ?out (KStr ''DecimalLatitude'') = Some (PFloat ?la)"
    by (simp add: AList.update_conv')
  have x2: "map_of ?out (KStr ''DecimalLongitude'') = Some (PFloat ?lo)"
    by (simp add: AList.update_conv')
  have x3: "\<bar>?la - 40.446111\<bar> < 1 / 10000" by simp
  have x4: "\<bar>?lo - (- 79.948611)\<bar> < 1 / 10000" by simp
  have second: "\<exists>out la lo.
          parse_gps_data E (PDict ?ex) = Inr out
        \<and> map_of out (KStr ''DecimalLatitude'') = Some (PFloat la)
        \<and> map_of out (KStr ''DecimalLongitude'') = Some (PFloat lo)
        \<and> \<bar>la - 40.446111\<bar> < 1 / 10000 \<and> \<bar>lo - (- 79.948611)\<bar> < 1 / 10000"
    using x x1 x2 x3 x4 by blast
  from first second show ?thesis by blast
qed

theorem C2_decimal_coordinates_witness:
  "\<exists>out. parse_gps_data env0
       (PDict [(KInt 1, PStr ''S''), (KInt 2, PTuple [PInt 33, PInt 51, PFloat 54]),
               (KInt 3, PStr ''E''), (KInt 4, PList [PInt 151, PInt 12, PInt 36])]) = Inr out
     \<and> map_of out (KStr ''DecimalLatitude'') = Some (PFloat (- (33 + 51 / 60 + 54 / 3600)))
     \<and> map_of out (KStr ''DecimalLongitude'') = Some (PFloat (151 + 12 / 60 + 36 / 3600))"
  using C2_decimal_coordinates [of env0
      "[(KInt 1, PStr ''S''), (KInt 2, PTuple [PInt 33, PInt 51, PFloat 54]),
        (KInt 3, PStr ''E''), (KInt 4, PList [PInt 151, PInt 12, PInt 36])]"
      "PTuple [PInt 33, PInt 51, PFloat 54]" "PInt 33" "PInt 51" "PFloat 54"
      "PList [PInt 151, PInt 12, PInt 36]" "PInt 151" "PInt 12" "PInt 36"]
  by (simp add: env0_def pil_gpstags_def float_int_limit_def)

text \<open>
  C6. A coordinate value whose length is not 3 converts to \<open>0.0\<close> without raising, and
  the decode still completes: with such a value on one axis and a value that converts on
  the other, \<open>_parse_gps_data\<close> returns the mapping with \<open>0.0\<close> for the malformed
  axis and the signed degrees for the other.
\<close>

theorem C6_malformed_triple_is_zero:
  assumes "py_len v = Inr n" and "n \<noteq> 3"
  shows "convert_to_degrees E v = Inr 0
    \<and> (GPSTAGS E 2 = Some ''GPSLatitude'' \<and> GPSTAGS E 4 = Some ''GPSLongitude''
        \<and> map_of gps_info (KInt 2) = Some v \<and> map_of gps_info (KInt 4) = Some other
        \<and> convert_to_degrees E other = Inr deg
       \<longrightarrow> (\<exists>out. parse_gps_data E (PDict gps_info) = Inr out
            \<and> map_of out (KStr ''DecimalLatitude'') = Some (PFloat 0)
            \<and> map_of out (KStr ''DecimalLongitude'') =
                Some (PFloat (if map_of gps_info (KInt 3) = Some (PStr ''W'') then - deg else deg))))
    \<and> (GPSTAGS E 2 = Some ''GPSLatitude'' \<and> GPSTAGS E 4 = Some ''GPSLongitude''
        \<and> map_of gps_info (KInt 4) = Some v \<and> map_of gps_info (KInt 2) = Some other
        \<and> convert_to_degrees E other = Inr deg
       \<longrightarrow> (\<exists>out. parse_gps_data E (PDict gps_info) = Inr out
            \<and> map_of out (KStr ''DecimalLongitude'') = Some (PFloat 0)
            \<and> map_of out (KStr ''DecimalLatitude'') =
                Some (PFloat (if map_of gps_info (KInt 1) = Some (PStr ''S'') then - deg else deg))))"
proof (intro conjI impI)
  show z: "convert_to_degrees E v = Inr 0"
    using assms by (rule convert_malformed)
  {
    assume h: "GPSTAGS E 2 = Some ''GPSLatitude'' \<and> GPSTAGS E 4 = Some ''GPSLongitude''
        \<and> map_of gps_info (KInt 2) = Some v \<and> map_of gps_info (KInt 4) = Some other
        \<and> convert_to_degrees E other = Inr deg"
    then have "parse_gps_data E (PDict gps_info) =
       Inr (AList.update (KStr ''DecimalLongitude'')
            (PFloat (if map_of gps_info (KInt 3) = Some (PStr ''W'') then - deg else deg))
            (AList.update (KStr ''DecimalLatitude'')
               (PFloat (if map_of gps_info (KInt 1) = Some (PStr ''S'') then - 0 else 0))
               (gps_stringify E gps_info)))"
      using z parse_gps_decimal [of E gps_info v other 0 deg] by simp
    then show "\<exists>out. parse_gps_data E (PDict gps_info) = Inr out
            \<and> map_of out (KStr ''DecimalLatitude'') = Some (PFloat 0)
            \<and> map_of out (KStr ''DecimalLongitude'') =
                Some (PFloat (if map_of gps_info (KInt 3) = Some (PStr ''W'') then - deg else deg))"
      by (simp add: AList.update_conv')
  }
  {
    assume h: "GPSTAGS E 2 = Some ''GPSLatitude'' \<and> GPSTAGS E 4 = Some ''GPSLongitude''
        \<and> map_of gps_info (KInt 4) = Some v \<and> map_of gps_info (KInt 2) = Some other
        \<and> convert_to_degrees E other = Inr deg"
    then have "parse_gps_data E (PDict gps_info) =
       Inr (AList.update (KStr ''DecimalLongitude'')
            (PFloat (if map_of gps_info (KInt 3) = Some (PStr ''W'') then - 0 else 0))
            (AList.update (KStr ''DecimalLatitude'')
               (PFloat (if map_of gps_info (KInt 1) = Some (PStr ''S'') then - deg else deg))
               (gps_stringify E gps_info)))"
      using z parse_gps_decimal [of E gps_info other v deg 0] by simp
    then show "\<exists>out. parse_gps_data E (PDict gps_info) = Inr out
            \<and> map_of out (KStr ''DecimalLongitude'') = Some (PFloat 0)
            \<and> map_of out (KStr ''DecimalLatitude'') =
                Some (PFloat (if map_of gps_info (KInt 1) = Some (PStr ''S'') then - deg else deg))"
      by (simp add: AList.update_conv')
  }
qed

theorem C6_malformed_triple_is_zero_witness:
  "convert_to_degrees env0 (PTuple [PInt 40, PInt 26]) = Inr 0
   \<and> (\<exists>out. parse_gps_data env0
         (PDict [(KInt 1, PStr ''S''), (KInt 2, PTuple [PInt 40, PInt 26]),
                 (KInt 3, PStr ''W''), (KInt 4, PTuple [PInt 79, PInt 56, PInt 55])]) = Inr out
       \<and> map_of out (KStr ''DecimalLatitude'') = Some (PFloat 0)
       \<and> map_of out (KStr ''DecimalLongitude'') = Some (PFloat (- (79 + 56 / 60 + 55 / 3600))))"
proof -
  have c: "convert_to_degrees env0 (PTuple [PInt 79, PInt 56, PInt 55]) = Inr (79 + 56 / 60 + 55 / 3600)"
    by (simp add: convert_to_degrees_def bindE_def float_int_limit_def)
  show ?thesis
    using C6_malformed_triple_is_zero [of "PTuple [PInt 40, PInt 26]" 2 env0
      "[(KInt 1, PStr ''S''), (KInt 2, PTuple [PInt 40, PInt 26]),
        (KInt 3, PStr ''W''), (KInt 4, PTuple [PInt 79, PInt 56, PInt 55])]"
      "PTuple [PInt 79, PInt 56, PInt 55]" "79 + 56 / 60 + 55 / 3600"] c
    by (simp add: env0_def pil_gpstags_def)
qed

text \<open>
  C5, as stated, fails: the decoder neither checks nor clamps the range. A latitude
  triple \<open>(200, 0, 0)\<close> gives \<open>DecimalLatitude = 200\<close>.
\<close>

theorem C5_range_counterexample:
  "parse_gps_data env0
     (PDict [(KInt 2, PTuple [PInt 200, PInt 0, PInt 0]), (KInt 4, PTuple [PInt 0, PInt 0, PInt 0])])
   = Inr [(KStr ''GPSLatitude'', PStr ''v''), (KStr ''GPSLongitude'', PStr ''v''),
          (KStr ''DecimalLatitude'', PFloat 200), (KStr ''DecimalLongitude'', PFloat 0)]
   \<and> \<not> decimal_in_range
        [(KStr ''GPSLatitude'', PStr ''v''), (KStr ''GPSLongitude'', PStr ''v''),
         (KStr ''DecimalLatitude'', PFloat 200), (KStr ''DecimalLongitude'', PFloat 0)]"
  by (simp add: parse_gps_data_def gps_decimal_def gps_stringify_def keys_def dict_get_def
      convert_to_degrees_def bindE_def env0_def pil_gpstags_def decimal_in_range_def py_str_def
      float_int_limit_def)

text \<open>
  C5, amended. The range of the input carries over: when no raw entry is itself named
  \<open>DecimalLatitude\<close> or \<open>DecimalLongitude\<close>, and the values at indices 2 and 4 convert
  to degrees of magnitude at most 90 and 180, then the decimal fields of the result, when
  both are present, are floats in \<open>[-90, 90]\<close> and \<open>[-180, 180]\<close>.
\<close>

theorem C5_range_of_input_carries_over:
  assumes "parse_gps_data E (PDict gps_info) = Inr out"
    and "KStr ''DecimalLatitude'' \<notin> gps_decoded E ` keys gps_info"
    and "KStr ''DecimalLongitude'' \<notin> gps_decoded E ` keys gps_info"
    and "\<And>x. convert_to_degrees E (dict_get gps_info (KInt 2) (PList [])) = Inr x \<Longrightarrow> \<bar>x\<bar> \<le> 90"
    and "\<And>y. convert_to_degrees E (dict_get gps_info (KInt 4) (PList [])) = Inr y \<Longrightarrow> \<bar>y\<bar> \<le> 180"
  shows "decimal_in_range out"
proof -
  let ?s = "gps_stringify E gps_info"
  have nolat: "map_of ?s (KStr ''DecimalLatitude'') = None"
    using assms(2) by (simp add: map_of_notin_keys keys_gps_stringify)
  have g: "out = (if gps_info = [] then [] else gps_decimal E gps_info ?s)"
    using assms(1) by (simp add: parse_gps_dict)
  show ?thesis
  proof (cases "gps_info = []")
    case True
    then show ?thesis using g by (simp add: decimal_in_range_def)
  next
    case False
    then have g': "out = gps_decimal E gps_info ?s" using g by simp
    show ?thesis
    proof (cases "out = ?s")
      case True
      then show ?thesis using nolat by (simp add: decimal_in_range_def)
    next
      case False
      then obtain lat lon where
        la: "convert_to_degrees E (dict_get gps_info (KInt 2) (PList [])) = Inr lat" and
        lo: "convert_to_degrees E (dict_get gps_info (KInt 4) (PList [])) = Inr lon" and
        out: "out = AList.update (KStr ''DecimalLongitude'')
            (PFloat (if map_of gps_info (KInt 3) = Some (PStr ''W'') then - lon else lon))
            (AList.update (KStr ''DecimalLatitude'')
               (PFloat (if map_of gps_info (KInt 1) = Some (PStr ''S'') then - lat else lat)) ?s)"
        using g' by (auto simp: gps_decimal_def Let_def split: if_splits sum.splits)
      from assms(4) [OF la] assms(5) [OF lo] show ?thesis
        by (auto simp: out decimal_in_range_def AList.update_conv')
    qed
  qed
qed

theorem C5_range_of_input_carries_over_witness:
  "decimal_in_range
     [(KStr ''GPSLatitudeRef'', PStr ''S''), (KStr ''GPSLatitude'', PStr ''v''),
      (KStr ''GPSLongitude'', PStr ''v''),
      (KStr ''DecimalLatitude'', PFloat (- (33 + 51 / 60))), (KStr ''DecimalLongitude'', PFloat 151)]"
proof -
  let ?in = "[(KInt 1, PStr ''S''), (KInt 2, PTuple [PInt 33, PInt 51, PInt 0]),
              (KInt 4, PTuple [PInt 151, PInt 0, PInt 0])]"
  have p: "parse_gps_data env0 (PDict ?in) =
     Inr [(KStr ''GPSLatitudeRef'', PStr ''S''), (KStr ''GPSLatitude'', PStr ''v''),
      (KStr ''GPSLongitude'', PStr ''v''),
      (KStr ''DecimalLatitude'', PFloat (- (33 + 51 / 60))), (KStr ''DecimalLongitude'', PFloat 151)]"
    by (simp add: parse_gps_data_def gps_decimal_def gps_stringify_def keys_def dict_get_def
      convert_to_degrees_def bindE_def env0_def pil_gpstags_def py_str_def float_int_limit_def)
  have k1: "KStr ''DecimalLatitude'' \<notin> gps_decoded env0 ` keys ?in"
    by (simp add: keys_def env0_def pil_gpstags_def)
  have k2: "KStr ''DecimalLongitude'' \<notin> gps_decoded env0 ` keys ?in"
    by (simp add: keys_def env0_def pil_gpstags_def)
  have r1: "\<And>x. convert_to_degrees env0 (dict_get ?in (KInt 2) (PList [])) = Inr x \<Longrightarrow> \<bar>x\<bar> \<le> 90"
    by (auto simp: dict_get_def convert_to_degrees_def bindE_def float_int_limit_def)
  have r2: "\<And>y. convert_to_degrees env0 (dict_get ?in (KInt 4) (PList [])) = Inr y \<Longrightarrow> \<bar>y\<bar> \<le> 180"
    by (auto simp: dict_get_def convert_to_degrees_def bindE_def float_int_limit_def)
  show ?thesis by (rule C5_range_of_input_carries_over [OF p k1 k2 r1 r2])
qed

section \<open>Properties of the extractor\<close>

subsection \<open>What the handlers leave untouched\<close>

lemma get_file_info_nonempty: "get_file_info E p = Inr fi \<Longrightarrow> fi \<noteq> []"
  by (auto simp: get_file_info_def bindE_def split: sum.splits)

lemma image_tag_step_frame:
  "image_tag_step E i v md = Inr md' \<Longrightarrow> file_info md' = file_info md \<and> error md' = error md"
  by (auto simp: image_tag_step_def Let_def bindE_def split: if_splits sum.splits)

lemma image_tags_loop_frame:
  "image_tags_loop E items md = (r, md') \<Longrightarrow> file_info md' = file_info md \<and> error md' = error md"
proof (induction items arbitrary: md)
  case Nil
  then show ?case by simp
next
  case (Cons it items)
  obtain i v where it: "it = (i, v)" by (cases it)
  show ?case
  proof (cases "image_tag_step E i v md")
    case (Inl e)
    with Cons.prems it show ?thesis by simp
  next
    case (Inr md1)
    with Cons.prems it have "image_tags_loop E items md1 = (r, md')" by simp
    from Cons.IH [OF this] image_tag_step_frame [OF Inr] show ?thesis by simp
  qed
qed

lemma exifread_merge_frame:
  "file_info (exifread_merge E tags md) = file_info md \<and> error (exifread_merge E tags md) = error md"
  unfolding exifread_merge_def
proof (induction tags arbitrary: md)
  case Nil
  show ?case by simp
next
  case (Cons t tags)
  obtain k v where t: "t = (k, v)" by (cases t)
  show ?case by (simp add: t Cons.IH)
qed

lemma image_basic_info_frame:
  "file_info (image_basic_info E img md) = file_info md
   \<and> error (image_basic_info E img md) = error md
   \<and> exif_data (image_basic_info E img md) = exif_data md"
  by (simp add: image_basic_info_def)

lemma image_try_frame:
  assumes "image_try E p md = (r, md')"
  shows "file_info md' = file_info md \<and> error md' = error md"
proof (cases "Image_open E p")
  case (Inl e)
  with assms show ?thesis by (simp add: image_try_def)
next
  case img: (Inr img)
  show ?thesis
  proof (cases "getexif img")
    case (Inl e)
    with assms img show ?thesis by (simp add: image_try_def)
  next
    case ex: (Inr exif_dict)
    obtain r1 md1 where l: "(case exif_dict of None \<Rightarrow> (None, md)
        | Some items \<Rightarrow> image_tags_loop E items md) = (r1, md1)"
      by (cases "(case exif_dict of None \<Rightarrow> (None, md) | Some items \<Rightarrow> image_tags_loop E items md)")
    have f1: "file_info md1 = file_info md \<and> error md1 = error md"
      using l image_tags_loop_frame by (cases exif_dict) auto
    show ?thesis
    proof (cases r1)
      case (Some e)
      with assms img ex l f1 show ?thesis by (simp add: image_try_def)
    next
      case None
      with assms img ex l f1 show ?thesis
        by (auto simp: image_try_def Let_def image_basic_info_frame exifread_merge_frame
            split: sum.splits)
    qed
  qed
qed

lemma video_probe_frame:
  "video_probe E p md = (r, md') \<Longrightarrow> file_info md' = file_info md \<and> error md' = error md"
  by (auto simp: video_probe_def split: sum.splits if_splits pyval.splits prod.splits)

lemma audio_tags_loop_frame:
  "audio_tags_loop E tags md = (r, md') \<Longrightarrow> file_info md' = file_info md \<and> error md' = error md"
proof (induction tags arbitrary: md)
  case Nil
  then show ?case by simp
next
  case (Cons t tags)
  obtain k v where t: "t = (k, v)" by (cases t)
  show ?case
  proof (cases "audio_tag_text E v")
    case (Inl e)
    with Cons.prems t show ?thesis by simp
  next
    case (Inr s)
    with Cons.prems t
    have "audio_tags_loop E tags (md \<lparr> exif_data := setitem (KStr k) (PStr s) (exif_data md) \<rparr>) = (r, md')"
      by simp
    from Cons.IH [OF this] show ?thesis by simp
  qed
qed

lemma audio_mp3_frame:
  "audio_mp3 E p md = (r, md') \<Longrightarrow> file_info md' = file_info md \<and> error md' = error md"
  by (auto simp: audio_mp3_def Let_def split: option.splits sum.splits dest: audio_tags_loop_frame)

subsection \<open>The shape of what a handler returns\<close>

lemma extract_image_exif_shape:
  assumes "extract_image_exif E p = Inr md"
  shows "\<not> absent_or_empty (file_info md)"
proof -
  obtain fi where fi: "get_file_info E p = Inr fi"
    using assms by (cases "get_file_info E p") (simp_all add: extract_image_exif_def bindE_def)
  let ?md0 = "no_keys \<lparr> file_info := Some fi, exif_data := Some [], gps_data := Some [],
                   camera_info := Some [], image_info := Some [] \<rparr>"
  obtain r md1 where t: "image_try E p ?md0 = (r, md1)" by (cases "image_try E p ?md0")
  from image_try_frame [OF t] have "file_info md1 = Some fi" by simp
  moreover have "file_info md = file_info md1"
    using assms fi t by (cases r) (auto simp: extract_image_exif_def bindE_def)
  ultimately show ?thesis
    using get_file_info_nonempty [OF fi] by (simp add: absent_or_empty_def)
qed

lemma extract_video_exif_shape:
  assumes "extract_video_exif E p = Inr md"
  shows "\<not> absent_or_empty (file_info md)"
proof -
  obtain fi where fi: "get_file_info E p = Inr fi"
    using assms by (cases "get_file_info E p") (simp_all add: extract_video_exif_def bindE_def)
  let ?md0 = "no_keys \<lparr> file_info := Some fi, video_info := Some (PDict []), exif_data := Some [] \<rparr>"
  obtain r md1 where t: "video_probe E p ?md0 = (r, md1)" by (cases "video_probe E p ?md0")
  from video_probe_frame [OF t] have "file_info md1 = Some fi" by simp
  moreover have "file_info md = file_info md1"
    using assms fi t by (cases r) (auto simp: extract_video_exif_def bindE_def)
  ultimately show ?thesis
    using get_file_info_nonempty [OF fi] by (simp add: absent_or_empty_def)
qed

lemma extract_audio_exif_shape:
  assumes "extract_audio_exif E p = Inr md"
  shows "\<not> absent_or_empty (file_info md)"
proof -
  obtain fi where fi: "get_file_info E p = Inr fi"
    using assms by (cases "get_file_info E p") (simp_all add: extract_audio_exif_def bindE_def)
  let ?md0 = "no_keys \<lparr> file_info := Some fi, audio_info := Some [], exif_data := Some [] \<rparr>"
  obtain r md1 where t: "audio_mp3 E p ?md0 = (r, md1)" by (cases "audio_mp3 E p ?md0")
  from audio_mp3_frame [OF t] have m1: "file_info md1 = Some fi" by simp
  have "file_info md = Some fi"
  proof (cases "lower (path_suffix p) = ''.mp3''")
    case False
    with assms fi show ?thesis
      by (auto simp: extract_audio_exif_def bindE_def)
  next
    case True
    with assms fi t m1 show ?thesis
      by (cases r) (auto simp: extract_audio_exif_def bindE_def)
  qed
  then show ?thesis
    using get_file_info_nonempty [OF fi] by (simp add: absent_or_empty_def)
qed

lemma error_only_error: "error (error_only msg) = Some msg"
  by (simp add: error_only_def no_keys_def)

lemma extract_exif_data_cases:
  "\<exists>md. extract_exif_data E p = Inr md
     \<and> ((\<exists>msg. md = error_only msg) \<or> \<not> absent_or_empty (file_info md))"
proof (cases "path_exists E p")
  case False
  then show ?thesis by (auto simp: extract_exif_data_def)
next
  case True
  let ?ext = "lower (path_suffix p)"
  consider (img) "?ext \<in> set supported_image_formats"
    | (vid) "?ext \<notin> set supported_image_formats" "?ext \<in> set supported_video_formats"
    | (aud) "?ext \<notin> set supported_image_formats" "?ext \<notin> set supported_video_formats"
        "?ext \<in> set supported_audio_formats"
    | (none) "?ext \<notin> set supported_image_formats" "?ext \<notin> set supported_video_formats"
        "?ext \<notin> set supported_audio_formats"
    by blast
  then show ?thesis
  proof cases
    case img
    show ?thesis
    proof (cases "extract_image_exif E p")
      case (Inl e)
      with True img show ?thesis by (auto simp: extract_exif_data_def)
    next
      case (Inr md)
      with True img extract_image_exif_shape [OF Inr] show ?thesis
        by (simp add: extract_exif_data_def)
    qed
  next
    case vid
    show ?thesis
    proof (cases "extract_video_exif E p")
      case (Inl e)
      with True vid show ?thesis by (auto simp: extract_exif_data_def)
    next
      case (Inr md)
      with True vid extract_video_exif_shape [OF Inr] show ?thesis
        by (simp add: extract_exif_data_def)
    qed
  next
    case aud
    show ?thesis
    proof (cases "extract_audio_exif E p")
      case (Inl e)
      with True aud show ?thesis by (auto simp: extract_exif_data_def)
    next
      case (Inr md)
      with True aud extract_audio_exif_shape [OF Inr] show ?thesis
        by (simp add: extract_exif_data_def)
    qed
  next
    case none
    with True show ?thesis by (auto simp: extract_exif_data_def)
  qed
qed

text \<open>
  C1, as stated, fails: when Pillow cannot open an existing image, the record carries
  \<open>error\<close> together with a populated \<open>file_info\<close> (and the empty sections the handler
  had created). It is neither of the two shapes.
\<close>

theorem C1_two_shapes_counterexample:
  "(case extract_exif_data env0 ''b.jpg'' of
      Inr md \<Rightarrow> error md = Some ''Error reading image EXIF: bad''
               \<and> file_info md \<noteq> None \<and> \<not> successful_shape md \<and> \<not> error_shape md
    | Inl e \<Rightarrow> False)"
  by (simp add: extract_exif_data_def extract_image_exif_def image_try_def get_file_info_def
      bindE_def env0_def no_keys_def successful_shape_def error_shape_def absent_or_empty_def
      Let_def path_suffix_def path_name_def lower_def lower_char_def supported_image_formats_def)

text \<open>
  C1, amended. For every world and every path, \<open>extract_exif_data\<close> returns a record of
  exactly one of three shapes: without \<open>error\<close> and with a populated \<open>file_info\<close>
  (success); the dictionary \<open>{"error": msg}\<close> alone; or \<open>error\<close> beside a populated
  \<open>file_info\<close> (a handler caught a failure and kept what it had filled). The three are
  exclusive by their definitions; never is a record without both \<open>error\<close> and
  \<open>file_info\<close>.
\<close>

theorem C1_three_shapes:
  "\<exists>md. extract_exif_data E file_path = Inr md
     \<and> (if error md = None then successful_shape md
        else if absent_or_empty (file_info md) then md = error_only (the (error md)) \<and> error_shape md
        else partial_shape md)"
proof -
  obtain md where md: "extract_exif_data E file_path = Inr md"
    and c: "(\<exists>msg. md = error_only msg) \<or> \<not> absent_or_empty (file_info md)"
    using extract_exif_data_cases [of E file_path] by blast
  from c have "if error md = None then successful_shape md
        else if absent_or_empty (file_info md) then md = error_only (the (error md)) \<and> error_shape md
        else partial_shape md"
    by (auto simp: successful_shape_def partial_shape_def error_shape_def error_only_def
        no_keys_def absent_or_empty_def absent_or_falsy_def)
  with md show ?thesis by blast
qed

theorem C1_three_shapes_witness:
  "\<exists>md. extract_exif_data env0 ''a.jpg'' = Inr md
     \<and> (if error md = None then successful_shape md
        else if absent_or_empty (file_info md) then md = error_only (the (error md)) \<and> error_shape md
        else partial_shape md)"
  using C1_three_shapes [of env0 "''a.jpg''"] .

subsection \<open>Where the keys of \<open>exif_data\<close> come from\<close>

lemma has_key_setitem: "has_key k (setitem k' v sec) = (k = k' \<or> has_key k sec)"
  by (cases sec) (auto simp: has_key_def setitem_def keys_update keys_Nil keys_Cons)

lemma image_tag_step_claimed:
  assumes "image_tag_step E i v md = Inr md'" and "k \<in> set claimed_tags"
    and "has_key k (exif_data md')"
  shows "has_key k (exif_data md)"
proof -
  let ?tag = "tag_name E i"
  consider (gps) "?tag = KStr ''GPSInfo''"
    | (cam) "?tag \<noteq> KStr ''GPSInfo''" "?tag \<in> set camera_tags"
    | (img) "?tag \<noteq> KStr ''GPSInfo''" "?tag \<notin> set camera_tags" "?tag \<in> set image_tags"
    | (other) "?tag \<noteq> KStr ''GPSInfo''" "?tag \<notin> set camera_tags" "?tag \<notin> set image_tags"
    by blast
  then show ?thesis
  proof cases
    case gps
    with assms(1,3) show ?thesis
      by (auto simp: image_tag_step_def bindE_def split: sum.splits)
  next
    case cam
    with assms(1,3) show ?thesis by (auto simp: image_tag_step_def)
  next
    case img
    with assms(1,3) show ?thesis by (auto simp: image_tag_step_def)
  next
    case other
    then have "k \<noteq> ?tag" using assms(2) by (auto simp: claimed_tags_def)
    with other assms(1,3) show ?thesis
      by (auto simp: image_tag_step_def has_key_setitem)
  qed
qed

lemma image_tags_loop_claimed:
  assumes "image_tags_loop E items md = (r, md')" and "k \<in> set claimed_tags"
    and "has_key k (exif_data md')"
  shows "has_key k (exif_data md)"
  using assms
proof (induction items arbitrary: md)
  case Nil
  then show ?case by simp
next
  case (Cons it items)
  obtain i v where it: "it = (i, v)" by (cases it)
  show ?case
  proof (cases "image_tag_step E i v md")
    case (Inl e)
    with Cons.prems it show ?thesis by simp
  next
    case (Inr md1)
    with Cons.prems it have "image_tags_loop E items md1 = (r, md')" by simp
    from Cons.IH [OF this Cons.prems(2,3)] have "has_key k (exif_data md1)" .
    from image_tag_step_claimed [OF Inr Cons.prems(2) this] show ?thesis .
  qed
qed

lemma exifread_merge_keys:
  "has_key k (exif_data (exifread_merge E tags md))
     = (has_key k (exif_data md) \<or> k \<in> KStr ` fst ` set tags)"
  unfolding exifread_merge_def
proof (induction tags arbitrary: md)
  case Nil
  show ?case by simp
next
  case (Cons t tags)
  obtain key v where t: "t = (key, v)" by (cases t)
  show ?case by (auto simp: t Cons.IH has_key_setitem)
qed

lemma image_try_claimed:
  assumes "image_try E p md = (r, md')" and "k \<in> set claimed_tags"
    and "has_key k (exif_data md')" and "\<not> has_key k (exif_data md)"
  shows "\<exists>tags. exifread_process_file E p = Inr tags \<and> k \<in> KStr ` fst ` set tags"
proof (cases "Image_open E p")
  case (Inl e)
  with assms show ?thesis by (simp add: image_try_def)
next
  case img: (Inr img)
  show ?thesis
  proof (cases "getexif img")
    case (Inl e)
    with assms img show ?thesis by (simp add: image_try_def)
  next
    case ex: (Inr exif_dict)
    obtain r1 md1 where l: "(case exif_dict of None \<Rightarrow> (None, md)
        | Some items \<Rightarrow> image_tags_loop E items md) = (r1, md1)"
      by (cases "(case exif_dict of None \<Rightarrow> (None, md) | Some items \<Rightarrow> image_tags_loop E items md)")
    have f1: "\<not> has_key k (exif_data md1)"
    proof (cases exif_dict)
      case None
      with l assms(4) show ?thesis by simp
    next
      case (Some items)
      with l have "image_tags_loop E items md = (r1, md1)" by simp
      from image_tags_loop_claimed [OF this assms(2)] assms(4) show ?thesis by blast
    qed
    show ?thesis
    proof (cases r1)
      case (Some e)
      with assms img ex l f1 show ?thesis by (simp add: image_try_def)
    next
      case None
      show ?thesis
      proof (cases "exifread_process_file E p")
        case (Inl e)
        with None assms(1) img ex l
        have "md' = image_basic_info E img md1"
          by (simp add: image_try_def Let_def)
        then have "exif_data md' = exif_data md1"
          by (simp add: image_basic_info_frame)
        with assms(3) f1 show ?thesis by simp
      next
        case (Inr tags)
        with None assms(1) img ex l
        have "md' = exifread_merge E tags (image_basic_info E img md1)"
          by (simp add: image_try_def Let_def)
        with assms(3) f1 have "k \<in> KStr ` fst ` set tags"
          by (simp add: exifread_merge_keys image_basic_info_frame)
        with Inr show ?thesis by blast
      qed
    qed
  qed
qed

lemma image_tag_step_Inl:
  "(image_tag_step E i v md = Inl e)
     = (tag_name E i = KStr ''GPSInfo'' \<and> parse_gps_data E v = Inl e)"
  by (auto simp: image_tag_step_def Let_def bindE_def split: sum.splits)

lemma image_tags_loop_failure:
  "fst (image_tags_loop E items md) = first_gps_failure E items"
proof (induction items arbitrary: md)
  case Nil
  show ?case by simp
next
  case (Cons it items)
  obtain i v where it: "it = (i, v)" by (cases it)
  show ?case
  proof (cases "image_tag_step E i v md")
    case (Inl e)
    then have "tag_name E i = KStr ''GPSInfo''" and "parse_gps_data E v = Inl e"
      by (simp_all add: image_tag_step_Inl)
    with Inl show ?thesis by (simp add: it)
  next
    case (Inr md1)
    have "first_gps_failure E ((i, v) # items) = first_gps_failure E items"
    proof (cases "tag_name E i = KStr ''GPSInfo''")
      case False
      then show ?thesis by simp
    next
      case True
      show ?thesis
      proof (cases "parse_gps_data E v")
        case (Inl e)
        with True have "image_tag_step E i v md = Inl e" by (simp add: image_tag_step_Inl)
        with Inr show ?thesis by simp
      next
        case (Inr g)
        with True show ?thesis by simp
      qed
    qed
    with Inr Cons.IH [of md1] show ?thesis by (simp add: it)
  qed
qed

lemma primary_exif_Cons:
  "primary_exif E ((i, v) # items) =
     (if tag_name E i \<in> set claimed_tags then primary_exif E items
      else [tag_name E i \<mapsto> PStr (py_str E v)] ++ primary_exif E items)"
  by (simp add: primary_exif_def)

lemma image_tag_step_exif:
  assumes "image_tag_step E i v md = Inr md'" and "exif_data md = Some d"
  shows "\<exists>d'. exif_data md' = Some d'
     \<and> map_of d' = (if tag_name E i \<in> set claimed_tags then map_of d
                     else (map_of d)(tag_name E i \<mapsto> PStr (py_str E v)))"
proof -
  let ?tag = "tag_name E i"
  consider (gps) "?tag = KStr ''GPSInfo''"
    | (cam) "?tag \<noteq> KStr ''GPSInfo''" "?tag \<in> set camera_tags"
    | (img) "?tag \<noteq> KStr ''GPSInfo''" "?tag \<notin> set camera_tags" "?tag \<in> set image_tags"
    | (other) "?tag \<noteq> KStr ''GPSInfo''" "?tag \<notin> set camera_tags" "?tag \<notin> set image_tags"
    by blast
  then show ?thesis
  proof cases
    case gps
    with assms show ?thesis
      by (auto simp: image_tag_step_def bindE_def claimed_tags_def split: sum.splits)
  next
    case cam
    with assms show ?thesis by (auto simp: image_tag_step_def claimed_tags_def)
  next
    case img
    with assms show ?thesis by (auto simp: image_tag_step_def claimed_tags_def)
  next
    case other
    then have "?tag \<notin> set claimed_tags" by (simp add: claimed_tags_def)
    with other assms show ?thesis
      by (auto simp: image_tag_step_def setitem_def AList.update_conv')
  qed
qed

lemma image_tags_loop_exif:
  assumes "image_tags_loop E items md = (None, md')" and "exif_data md = Some d"
  shows "\<exists>d'. exif_data md' = Some d' \<and> map_of d' = map_of d ++ primary_exif E items"
  using assms
proof (induction items arbitrary: md d)
  case Nil
  then show ?case by (simp add: primary_exif_def)
next
  case (Cons it items)
  obtain i v where it: "it = (i, v)" by (cases it)
  show ?case
  proof (cases "image_tag_step E i v md")
    case (Inl e)
    with Cons.prems it show ?thesis by simp
  next
    case (Inr md1)
    from image_tag_step_exif [OF Inr Cons.prems(2)] obtain d1 where
      d1: "exif_data md1 = Some d1" and
      m1: "map_of d1 = (if tag_name E i \<in> set claimed_tags then map_of d
                        else (map_of d)(tag_name E i \<mapsto> PStr (py_str E v)))"
      by blast
    from Cons.prems(1) it Inr have "image_tags_loop E items md1 = (None, md')" by simp
    from Cons.IH [OF this d1] obtain d' where
      d': "exif_data md' = Some d'" and m': "map_of d' = map_of d1 ++ primary_exif E items"
      by blast
    have "map_of d1 ++ primary_exif E items = map_of d ++ primary_exif E ((i, v) # items)"
      unfolding m1 primary_exif_Cons
      by (auto simp: fun_eq_iff map_add_def split: option.splits)
    with d' m' show ?thesis unfolding it by simp
  qed
qed

lemma has_key_Some: "has_key k (Some d) = (map_of d k \<noteq> None)"
  by (simp add: has_key_def keys_def map_of_eq_None_iff)

lemma exifread_merge_exif:
  assumes "exif_data md = Some d"
  shows "\<exists>d'. exif_data (exifread_merge E tags md) = Some d'
     \<and> map_of d' = secondary_exif E tags ++ map_of d"
  using assms unfolding exifread_merge_def
proof (induction tags arbitrary: md d)
  case Nil
  then show ?case by (simp add: secondary_exif_def)
next
  case (Cons t tags)
  obtain key v where t: "t = (key, v)" by (cases t)
  let ?k = "KStr key" and ?sv = "PStr (py_str E v)"
  have sec: "secondary_exif E ((key, v) # tags) = (secondary_exif E tags)(?k \<mapsto> ?sv)"
    by (simp add: secondary_exif_def)
  show ?case
  proof (cases "map_of d ?k")
    case None
    let ?md1 = "md \<lparr> exif_data := setitem ?k ?sv (exif_data md) \<rparr>"
    have e1: "exif_data ?md1 = Some (AList.update ?k ?sv d)"
      using Cons.prems by (simp add: setitem_def)
    from Cons.IH [OF e1] obtain d' where
      d': "exif_data (fold (\<lambda>(key, v) md.
             if \<not> has_key (KStr key) (exif_data md)
             then md \<lparr> exif_data := setitem (KStr key) (PStr (py_str E v)) (exif_data md) \<rparr>
             else md) tags ?md1) = Some d'"
      and m': "map_of d' = secondary_exif E tags ++ map_of (AList.update ?k ?sv d)"
      by blast
    have "secondary_exif E tags ++ map_of (AList.update ?k ?sv d)
        = secondary_exif E ((key, v) # tags) ++ map_of d"
      unfolding sec using None
      by (auto simp: fun_eq_iff map_add_def AList.update_conv' split: option.splits)
    with d' m' None Cons.prems show ?thesis
      unfolding t by (simp add: has_key_Some)
  next
    case (Some old)
    from Cons.IH [OF Cons.prems] obtain d' where
      d': "exif_data (fold (\<lambda>(key, v) md.
             if \<not> has_key (KStr key) (exif_data md)
             then md \<lparr> exif_data := setitem (KStr key) (PStr (py_str E v)) (exif_data md) \<rparr>
             else md) tags md) = Some d'"
      and m': "map_of d' = secondary_exif E tags ++ map_of d"
      by blast
    have "secondary_exif E tags ++ map_of d = secondary_exif E ((key, v) # tags) ++ map_of d"
      unfolding sec using Some
      by (auto simp: fun_eq_iff map_add_def split: option.splits)
    with d' m' Some Cons.prems show ?thesis
      unfolding t by (simp add: has_key_Some)
  qed
qed

lemma image_try_failure: "fst (image_try E p md) = image_failure E p"
proof (cases "Image_open E p")
  case (Inl e)
  then show ?thesis by (simp add: image_try_def image_failure_def)
next
  case img: (Inr img)
  show ?thesis
  proof (cases "getexif img")
    case (Inl e)
    with img show ?thesis by (simp add: image_try_def image_failure_def)
  next
    case ex: (Inr exif_dict)
    obtain r1 md1 where l: "(case exif_dict of None \<Rightarrow> (None, md)
        | Some items \<Rightarrow> image_tags_loop E items md) = (r1, md1)"
      by (cases "(case exif_dict of None \<Rightarrow> (None, md) | Some items \<Rightarrow> image_tags_loop E items md)")
    have r1: "r1 = first_gps_failure E (exif_items exif_dict)"
    proof (cases exif_dict)
      case None
      with l show ?thesis by (simp add: exif_items_def)
    next
      case (Some items)
      with l image_tags_loop_failure [of E items md] show ?thesis
        by (simp add: exif_items_def)
    qed
    show ?thesis
    proof (cases r1)
      case (Some e)
      then have f: "first_gps_failure E (exif_items exif_dict) = Some e" using r1 by simp
      from img ex l Some show ?thesis by (simp add: image_try_def image_failure_def f)
    next
      case None
      then have f: "first_gps_failure E (exif_items exif_dict) = None" using r1 by simp
      from img ex l None show ?thesis
        by (cases "exifread_process_file E p") (simp_all add: image_try_def image_failure_def Let_def f)
    qed
  qed
qed

lemma image_try_exif:
  assumes "Image_open E p = Inr img" and "getexif img = Inr exif_dict"
    and "first_gps_failure E (exif_items exif_dict) = None"
    and "exifread_process_file E p = Inr tags" and "exif_data md = Some []"
  shows "\<exists>d. exif_data (snd (image_try E p md)) = Some d
     \<and> map_of d = secondary_exif E tags ++ primary_exif E (exif_items exif_dict)"
proof -
  obtain r1 md1 where l: "image_tags_loop E (exif_items exif_dict) md = (r1, md1)"
    by (cases "image_tags_loop E (exif_items exif_dict) md")
  have "r1 = None"
    using image_tags_loop_failure [of E "exif_items exif_dict" md] l assms(3) by simp
  with l have l': "image_tags_loop E (exif_items exif_dict) md = (None, md1)" by simp
  from image_tags_loop_exif [OF l' assms(5)] obtain d1 where
    d1: "exif_data md1 = Some d1" and m1: "map_of d1 = primary_exif E (exif_items exif_dict)"
    by auto
  have d2: "exif_data (image_basic_info E img md1) = Some d1"
    using d1 by (simp add: image_basic_info_frame)
  from exifread_merge_exif [OF d2, of E tags] obtain d where
    d: "exif_data (exifread_merge E tags (image_basic_info E img md1)) = Some d"
    and m: "map_of d = secondary_exif E tags ++ map_of d1" by blast
  have loop: "(case exif_dict of None \<Rightarrow> (None, md)
        | Some items \<Rightarrow> image_tags_loop E items md) = (None, md1)"
    using l' by (cases exif_dict) (simp_all add: exif_items_def)
  have "snd (image_try E p md) = exifread_merge E tags (image_basic_info E img md1)"
    using assms(1,2,4) loop by (simp add: image_try_def Let_def)
  with d m m1 show ?thesis by simp
qed

text \<open>
  C7, as stated, fails: the keys of the secondary source are added to \<open>exif_data\<close>
  without a filter on what tag they name. For a geotagged photograph, with exifread's
  keys, the record has \<open>Make\<close> in \<open>camera_info\<close> and the same tag as \<open>Image Make\<close>
  in \<open>exif_data\<close>, and the GPS tag \<open>GPS GPSLatitude\<close> in \<open>exif_data\<close>.
\<close>

theorem C7_secondary_key_counterexample:
  "(case extract_exif_data env0 ''a.jpg'' of
      Inr md \<Rightarrow> error md = None
               \<and> has_key (KStr ''Make'') (camera_info md)
               \<and> has_key (KStr ''Image Make'') (exif_data md)
               \<and> names_claimed_tag (KStr ''Image Make'')
               \<and> has_key (KStr ''GPSLatitude'') (gps_data md)
               \<and> has_key (KStr ''GPS GPSLatitude'') (exif_data md)
               \<and> names_claimed_tag (KStr ''GPS GPSLatitude'')
               \<and> \<not> exif_invariant md
    | Inl e \<Rightarrow> False)"
  by (simp add: extract_exif_data_def extract_image_exif_def image_try_def get_file_info_def
      bindE_def env0_def no_keys_def Let_def path_suffix_def path_name_def lower_def
      lower_char_def supported_image_formats_def sample_image_def sample_gps_def
      image_tag_step_def tag_name_def pil_tags_def pil_gpstags_def camera_tags_def image_tags_def
      claimed_tags_def parse_gps_data_def gps_decimal_def gps_stringify_def dict_get_def
      convert_to_degrees_def float_int_limit_def
      image_basic_info_def exifread_merge_def has_key_def
      setitem_def keys_def py_str_def exif_invariant_def exifread_tag_def exifread_ifd_def)

text \<open>
  C7, amended. In the record of an image: a bare claimed name (\<open>Make\<close>, \<open>Model\<close>,
  \<open>LensMake\<close>, \<open>LensModel\<close>, \<open>ImageWidth\<close>, \<open>ImageLength\<close>, \<open>Orientation\<close>,
  \<open>ColorSpace\<close>, \<open>GPSInfo\<close>) is no key of \<open>exif_data\<close> unless the secondary source
  returned that very key. When both sources are read without failure, \<open>exif_data\<close> is
  exactly the unclaimed tags of the primary source together with every key of the
  secondary source, unfiltered, the primary value standing where both have the key.
\<close>

theorem C7_exif_data_of_two_sources:
  assumes "extract_image_exif E file_path = Inr md"
  shows "(\<forall>k \<in> set claimed_tags.
            (\<forall>tags. exifread_process_file E file_path = Inr tags \<longrightarrow> k \<notin> KStr ` fst ` set tags)
            \<longrightarrow> \<not> has_key k (exif_data md))
    \<and> (\<forall>img exif_dict tags.
          Image_open E file_path = Inr img \<and> getexif img = Inr exif_dict
          \<and> first_gps_failure E (exif_items exif_dict) = None
          \<and> exifread_process_file E file_path = Inr tags
          \<longrightarrow> (\<exists>d. exif_data md = Some d
                 \<and> map_of d = secondary_exif E tags ++ primary_exif E (exif_items exif_dict)
                 \<and> (\<forall>key \<in> fst ` set tags. KStr key \<in> keys d)))"
proof -
  obtain fi where fi: "get_file_info E file_path = Inr fi"
    using assms(1) by (cases "get_file_info E file_path") (simp_all add: extract_image_exif_def bindE_def)
  let ?md0 = "no_keys \<lparr> file_info := Some fi, exif_data := Some [], gps_data := Some [],
                   camera_info := Some [], image_info := Some [] \<rparr>"
  obtain r md1 where t: "image_try E file_path ?md0 = (r, md1)"
    by (cases "image_try E file_path ?md0")
  have same: "exif_data md = exif_data md1"
    using assms(1) fi t by (cases r) (auto simp: extract_image_exif_def bindE_def)
  have e0: "exif_data ?md0 = Some []" by simp
  have first: "\<forall>k \<in> set claimed_tags.
            (\<forall>tags. exifread_process_file E file_path = Inr tags \<longrightarrow> k \<notin> KStr ` fst ` set tags)
            \<longrightarrow> \<not> has_key k (exif_data md)"
  proof (intro ballI impI notI)
    fix k
    assume k: "k \<in> set claimed_tags"
      and none: "\<forall>tags. exifread_process_file E file_path = Inr tags \<longrightarrow> k \<notin> KStr ` fst ` set tags"
      and h: "has_key k (exif_data md)"
    from h same have h1: "has_key k (exif_data md1)" by simp
    have "\<not> has_key k (exif_data ?md0)" by (simp add: has_key_def keys_Nil)
    from image_try_claimed [OF t k h1 this] none show False by blast
  qed
  have second: "\<forall>img exif_dict tags.
          Image_open E file_path = Inr img \<and> getexif img = Inr exif_dict
          \<and> first_gps_failure E (exif_items exif_dict) = None
          \<and> exifread_process_file E file_path = Inr tags
          \<longrightarrow> (\<exists>d. exif_data md = Some d
                 \<and> map_of d = secondary_exif E tags ++ primary_exif E (exif_items exif_dict)
                 \<and> (\<forall>key \<in> fst ` set tags. KStr key \<in> keys d))"
  proof (intro allI impI)
    fix img exif_dict tags
    assume a: "Image_open E file_path = Inr img \<and> getexif img = Inr exif_dict
          \<and> first_gps_failure E (exif_items exif_dict) = None
          \<and> exifread_process_file E file_path = Inr tags"
    from image_try_exif [of E file_path img exif_dict tags ?md0] a e0 t obtain d where
      d: "exif_data md1 = Some d"
      and m: "map_of d = secondary_exif E tags ++ primary_exif E (exif_items exif_dict)"
      by auto
    have "\<forall>key \<in> fst ` set tags. KStr key \<in> keys d"
    proof
      fix key
      assume "key \<in> fst ` set tags"
      then have "KStr key \<in> fst ` set (map (\<lambda>(key, v). (KStr key, PStr (py_str E v))) tags)"
        by (force simp: image_iff)
      then have "secondary_exif E tags (KStr key) \<noteq> None"
        by (simp add: secondary_exif_def map_of_eq_None_iff)
      then have "map_of d (KStr key) \<noteq> None"
        unfolding m by (auto simp: map_add_def split: option.splits)
      then show "KStr key \<in> keys d" by (simp add: keys_def map_of_eq_None_iff)
    qed
    with d m same show "\<exists>d. exif_data md = Some d
                 \<and> map_of d = secondary_exif E tags ++ primary_exif E (exif_items exif_dict)
                 \<and> (\<forall>key \<in> fst ` set tags. KStr key \<in> keys d)"
      by simp
  qed
  from first second show ?thesis by blast
qed

theorem C7_exif_data_of_two_sources_witness:
  "\<exists>md d. extract_image_exif env0 ''a.jpg'' = Inr md
     \<and> \<not> has_key (KStr ''Make'') (exif_data md)
     \<and> exif_data md = Some d
     \<and> map_of d (KStr ''Software'') = Some (PStr ''fw'')
     \<and> map_of d (KStr ''Image Make'') = Some (PStr ''Canon'')
     \<and> KStr ''GPS GPSLatitude'' \<in> keys d"
proof -
  have "\<exists>md. extract_image_exif env0 ''a.jpg'' = Inr md"
    by (simp add: extract_image_exif_def get_file_info_def bindE_def env0_def)
  then obtain md where m: "extract_image_exif env0 ''a.jpg'' = Inr md" by blast
  let ?tags = "[(''Image Make'', PStr ''Canon''), (''GPS GPSLatitude'', PStr ''[40, 26, 46]'')]"
  let ?items = "[(271, PStr ''Canon''), (34853, sample_gps), (305, PStr ''fw'')]"
  have ex: "exifread_process_file env0 ''a.jpg'' = Inr ?tags" by (simp add: env0_def)
  have io: "Image_open env0 ''a.jpg'' = Inr sample_image" by (simp add: env0_def)
  have ge: "getexif sample_image = Inr (Some ?items)" by (simp add: sample_image_def)
  have nf: "first_gps_failure env0 (exif_items (Some ?items)) = None"
    by (simp add: exif_items_def tag_name_def env0_def pil_tags_def sample_gps_def
        parse_gps_data_def)
  have mk: "KStr ''Make'' \<in> set claimed_tags" by (simp add: claimed_tags_def camera_tags_def)
  have bare: "\<forall>tags. exifread_process_file env0 ''a.jpg'' = Inr tags
      \<longrightarrow> KStr ''Make'' \<notin> KStr ` fst ` set tags"
    unfolding ex by auto
  note c = C7_exif_data_of_two_sources [OF m]
  from c mk bare have a: "\<not> has_key (KStr ''Make'') (exif_data md)" by blast
  from c io ge nf ex obtain d where
    d: "exif_data md = Some d"
    and mp: "map_of d = secondary_exif env0 ?tags ++ primary_exif env0 (exif_items (Some ?items))"
    and ks: "\<forall>key \<in> fst ` set ?tags. KStr key \<in> keys d"
    by blast
  have b1: "map_of d (KStr ''Software'') = Some (PStr ''fw'')"
    unfolding mp
    by (simp add: secondary_exif_def primary_exif_def exif_items_def tag_name_def env0_def
        pil_tags_def claimed_tags_def camera_tags_def image_tags_def py_str_def)
  have b2: "map_of d (KStr ''Image Make'') = Some (PStr ''Canon'')"
    unfolding mp
    by (simp add: secondary_exif_def primary_exif_def exif_items_def tag_name_def env0_def
        pil_tags_def claimed_tags_def camera_tags_def image_tags_def py_str_def)
  from ks have b3: "KStr ''GPS GPSLatitude'' \<in> keys d" by simp
  from m a d b1 b2 b3 show ?thesis by blast
qed

section \<open>Properties of bulk processing\<close>

subsection \<open>Completion order\<close>

lemma as_completed_mset: "mset (as_completed cs xs) = mset xs"
proof (induction cs xs rule: as_completed.induct)
  case (1 cs)
  show ?case by simp
next
  case (2 x xs)
  show ?case by simp
next
  case (3 c cs x xs)
  let ?ys = "x # xs"
  let ?i = "c mod length ?ys"
  have i: "?i < length ?ys" by simp
  have "mset ?ys = mset (take ?i ?ys @ ?ys ! ?i # drop (Suc ?i) ?ys)"
    using id_take_nth_drop [OF i] by simp
  also have "\<dots> = add_mset (?ys ! ?i) (mset (take ?i ?ys @ drop (Suc ?i) ?ys))"
    by simp
  also have "\<dots> = mset (as_completed (c # cs) ?ys)"
    using "3.IH" by simp
  finally show ?case by simp
qed

lemma as_completed_set: "set (as_completed cs xs) = set xs"
  using as_completed_mset [of cs xs] by (rule mset_eq_setD)

lemma as_completed_length: "length (as_completed cs xs) = length xs"
  using as_completed_mset [of cs xs] by (rule mset_eq_length)



text \<open>Every completion order is the outcome of some schedule.\<close>

lemma as_completed_complete: "mset ys = mset xs \<Longrightarrow> \<exists>cs. as_completed cs xs = ys"
proof (induction ys arbitrary: xs)
  case Nil
  then show ?case by simp
next
  case (Cons y ys)
  from Cons.prems have "set (y # ys) = set xs" by (rule mset_eq_setD)
  then have "y \<in> set xs" by auto
  then obtain i where i: "i < length xs" and y: "xs ! i = y" by (auto simp: in_set_conv_nth)
  let ?rest = "take i xs @ drop (Suc i) xs"
  have "xs = take i xs @ y # drop (Suc i) xs"
    using id_take_nth_drop [OF i] y by simp
  then have "mset xs = mset (take i xs @ y # drop (Suc i) xs)" by simp
  then have "mset xs = add_mset y (mset ?rest)" by simp
  with Cons.prems have "mset ys = mset ?rest" by simp
  from Cons.IH [OF this] obtain cs where cs: "as_completed cs ?rest = ys" by blast
  obtain x xs' where xs: "xs = x # xs'" using i by (cases xs) auto
  have m: "i mod length (x # xs') = i" using i xs by simp
  have "as_completed (i # cs) (x # xs') = y # ys"
    using y cs unfolding xs by (simp only: as_completed.simps m)
  then show ?case unfolding xs by blast
qed

subsection \<open>The loop over the finished futures\<close>

lemma update_append_new: "k \<notin> fst ` set al \<Longrightarrow> AList.update k v al = al @ [(k, v)]"
  by (induction al) auto

lemma completion_step_None:
  "completion_step None n fut (rs, c, s)
     = Inr (AList.update (fst fut) (task_record (snd fut)) rs, Suc c, s)"
  by (simp add: completion_step_def)

lemma completion_step_returning:
  "completion_step (Some (returning g)) n fut (rs, c, s)
     = Inr (AList.update (fst fut) (task_record (snd fut)) rs, Suc c, g (Suc c) n s)"
  by (simp add: completion_step_def returning_def)

lemma completion_step_Inr:
  "completion_step cb n fut (rs, c, s) = Inr (rs', c', s') \<Longrightarrow>
   rs' = AList.update (fst fut) (task_record (snd fut)) rs \<and> c' = Suc c"
  by (auto simp: completion_step_def Let_def split: option.splits sum.splits)

lemma completion_step_Inl:
  "completion_step cb n fut (rs, c, s) = Inl e \<Longrightarrow>
   \<exists>f. cb = Some f \<and> f (Suc c) n s = Inl e"
  by (auto simp: completion_step_def Let_def split: option.splits sum.splits)

lemma completion_loop_None:
  "completion_loop None n order (rs, c, s)
     = Inr (fold (\<lambda>fut rs. AList.update (fst fut) (task_record (snd fut)) rs) order rs,
            c + length order, s)"
proof (induction order arbitrary: rs c)
  case Nil
  show ?case by simp
next
  case (Cons fut order)
  show ?case by (simp add: completion_step_None Cons.IH)
qed

lemma completion_loop_returning:
  "completion_loop (Some (returning g)) n order (rs, c, s)
     = Inr (fold (\<lambda>fut rs. AList.update (fst fut) (task_record (snd fut)) rs) order rs,
            c + length order,
            fold (\<lambda>i. g i n) [Suc c ..< Suc (c + length order)] s)"
proof (induction order arbitrary: rs c s)
  case Nil
  show ?case by simp
next
  case (Cons fut order)
  have u: "[Suc c ..< Suc (c + length (fut # order))]
      = Suc c # [Suc (Suc c) ..< Suc (Suc c + length order)]"
    by (subst upt_rec) simp
  show ?case
    unfolding u by (simp add: completion_step_returning Cons.IH del: upt_Suc)
qed

lemma completion_loop_Inr:
  "completion_loop cb n order (rs, c, s) = Inr (rs', c', s') \<Longrightarrow>
   rs' = fold (\<lambda>fut rs. AList.update (fst fut) (task_record (snd fut)) rs) order rs"
proof (induction order arbitrary: rs c s)
  case Nil
  then show ?case by simp
next
  case (Cons fut order)
  show ?case
  proof (cases "completion_step cb n fut (rs, c, s)")
    case (Inl e)
    with Cons.prems show ?thesis by simp
  next
    case (Inr st1)
    obtain rs1 c1 s1 where st1: "st1 = (rs1, c1, s1)" by (cases st1)
    from Inr st1 completion_step_Inr [of cb n fut rs c s rs1 c1 s1]
    have r1: "rs1 = AList.update (fst fut) (task_record (snd fut)) rs" by simp
    from Cons.prems Inr st1 have "completion_loop cb n order (rs1, c1, s1) = Inr (rs', c', s')"
      by simp
    from Cons.IH [OF this] r1 show ?thesis by simp
  qed
qed

lemma completion_loop_Inl:
  "completion_loop cb n order (rs, c, s) = Inl e \<Longrightarrow>
   \<exists>f k s1. cb = Some f \<and> f k n s1 = Inl e"
proof (induction order arbitrary: rs c s)
  case Nil
  then show ?case by simp
next
  case (Cons fut order)
  show ?case
  proof (cases "completion_step cb n fut (rs, c, s)")
    case (Inl e1)
    with Cons.prems have "e1 = e" by simp
    with Inl completion_step_Inl [of cb n fut rs c s e] show ?thesis by blast
  next
    case (Inr st1)
    obtain rs1 c1 s1 where st1: "st1 = (rs1, c1, s1)" by (cases st1)
    from Cons.prems Inr st1 have "completion_loop cb n order (rs1, c1, s1) = Inl e" by simp
    from Cons.IH [OF this] show ?thesis .
  qed
qed

lemma fold_update_map_of:
  assumes "\<forall>fut \<in> set order. snd fut = task (fst fut)"
  shows "map_of (fold (\<lambda>fut rs. AList.update (fst fut) (task_record (snd fut)) rs) order rs) p
     = (if p \<in> fst ` set order then Some (task_record (task p)) else map_of rs p)"
  using assms
proof (induction order arbitrary: rs)
  case Nil
  show ?case by simp
next
  case (Cons fut order)
  then have IH: "\<And>rs. map_of (fold (\<lambda>fut rs. AList.update (fst fut) (task_record (snd fut)) rs) order rs) p
     = (if p \<in> fst ` set order then Some (task_record (task p)) else map_of rs p)"
    by simp
  from Cons.prems have "snd fut = task (fst fut)" by simp
  then show ?case by (simp add: IH AList.update_conv')
qed


lemma process_files_with_returning:
  "process_files_with task sched file_paths (Some (returning g)) s =
     Inr (fold (\<lambda>fut rs. AList.update (fst fut) (task_record (snd fut)) rs)
            (as_completed sched
               (map (\<lambda>file_path. (file_path, task file_path)) (filter is_supported_file file_paths))) [],
          fold (\<lambda>i. g i (length (filter is_supported_file file_paths)))
            [Suc 0 ..< Suc (length (filter is_supported_file file_paths))] s)"
proof (cases "file_paths = []")
  case True
  then show ?thesis by (simp add: process_files_with_def)
next
  case False
  then show ?thesis
    by (simp add: process_files_with_def Let_def completion_loop_returning as_completed_length
        del: upt_Suc)
qed

lemma process_files_with_None:
  "process_files_with task sched file_paths None s =
     Inr (fold (\<lambda>fut rs. AList.update (fst fut) (task_record (snd fut)) rs)
            (as_completed sched
               (map (\<lambda>file_path. (file_path, task file_path)) (filter is_supported_file file_paths))) [],
          s)"
proof (cases "file_paths = []")
  case True
  then show ?thesis by (simp add: process_files_with_def)
next
  case False
  then show ?thesis
    by (simp add: process_files_with_def Let_def completion_loop_None)
qed

lemma process_files_with_Inr:
  assumes "process_files_with task sched file_paths cb s = Inr (results, s')"
  shows "results =
     fold (\<lambda>fut rs. AList.update (fst fut) (task_record (snd fut)) rs)
       (as_completed sched
          (map (\<lambda>file_path. (file_path, task file_path)) (filter is_supported_file file_paths))) []"
proof (cases "file_paths = []")
  case True
  with assms show ?thesis by (simp add: process_files_with_def)
next
  case False
  let ?order = "as_completed sched
          (map (\<lambda>file_path. (file_path, task file_path)) (filter is_supported_file file_paths))"
  let ?n = "length (filter is_supported_file file_paths)"
  from assms False obtain c where "completion_loop cb ?n ?order ([], 0, s) = Inr (results, c, s')"
    by (auto simp: process_files_with_def Let_def split: sum.splits)
  from completion_loop_Inr [OF this] show ?thesis .
qed

lemma process_files_with_Inl:
  assumes "process_files_with task sched file_paths cb s = Inl e"
  shows "\<exists>f k s1. cb = Some f \<and> f k (length (filter is_supported_file file_paths)) s1 = Inl e"
proof (cases "file_paths = []")
  case True
  with assms show ?thesis by (simp add: process_files_with_def)
next
  case False
  let ?order = "as_completed sched
          (map (\<lambda>file_path. (file_path, task file_path)) (filter is_supported_file file_paths))"
  let ?n = "length (filter is_supported_file file_paths)"
  from assms False have "completion_loop cb ?n ?order ([], 0, s) = Inl e"
    by (auto simp: process_files_with_def Let_def split: sum.splits)
  from completion_loop_Inl [OF this] show ?thesis .
qed

lemma results_map_of:
  "map_of (fold (\<lambda>fut rs. AList.update (fst fut) (task_record (snd fut)) rs)
             (as_completed sched
                (map (\<lambda>file_path. (file_path, task file_path))
                   (filter is_supported_file file_paths))) []) p
     = (if p \<in> set file_paths \<and> is_supported_file p then Some (task_record (task p)) else None)"
proof -
  let ?futs = "map (\<lambda>file_path. (file_path, task file_path)) (filter is_supported_file file_paths)"
  have a: "\<forall>fut \<in> set (as_completed sched ?futs). snd fut = task (fst fut)"
    by (auto simp: as_completed_set)
  have b: "fst ` set (as_completed sched ?futs) = {q \<in> set file_paths. is_supported_file q}"
    by (auto simp: as_completed_set image_iff)
  show ?thesis
    unfolding fold_update_map_of [OF a] b by simp
qed






section \<open>Properties of filtering, scanning and export\<close>

lemma filter_geotagged_fold:
  assumes "distinct (map fst rs)" and "fst ` set rs \<inter> fst ` set acc = {}"
  shows "fold (\<lambda>(file_path, md) geotagged.
             if geotag_test md then AList.update file_path md geotagged else geotagged) rs acc
     = acc @ filter (\<lambda>(file_path, md). geotag_test md) rs"
  using assms
proof (induction rs arbitrary: acc)
  case Nil
  show ?case by simp
next
  case (Cons r rs)
  obtain p md where r: "r = (p, md)" by (cases r)
  have d: "distinct (map fst rs)" using Cons.prems(1) by simp
  have new: "p \<notin> fst ` set acc" using Cons.prems(2) r by auto
  show ?case
  proof (cases "geotag_test md")
    case True
    have "fst ` set rs \<inter> fst ` set (acc @ [(p, md)]) = {}"
      using Cons.prems r by auto
    from Cons.IH [OF d this] True show ?thesis
      by (simp add: r update_append_new [OF new])
  next
    case False
    have "fst ` set rs \<inter> fst ` set acc = {}" using Cons.prems(2) by auto
    from Cons.IH [OF d this] False show ?thesis by (simp add: r)
  qed
qed

lemma geotag_test_is_geotagged: "geotag_test md = is_geotagged md"
  by (cases "gps_data md") (auto simp: geotag_test_def is_geotagged_def has_key_def keys_def)

text \<open>
  C8. For a result set (a dictionary: its paths are pairwise distinct),
  \<open>filter_geotagged_files\<close> returns exactly the entries whose \<open>gps_data\<close> has both
  \<open>DecimalLatitude\<close> and \<open>DecimalLongitude\<close>, in their order, each path with the very
  record it had; so one entry when one record qualifies. The function is a function of
  its argument alone: the source reads \<open>results\<close> and stores only into the new
  dictionary, and what it returns are entries of the argument, unchanged.
\<close>

theorem C8_filter_geotagged:
  assumes "distinct (map fst results)"
  shows "filter_geotagged_files results = filter (\<lambda>(file_path, md). is_geotagged md) results
    \<and> map_of (filter_geotagged_files results) p =
        (case map_of results p of
           None \<Rightarrow> None
         | Some md \<Rightarrow> if is_geotagged md then Some md else None)
    \<and> set (filter_geotagged_files results) \<subseteq> set results"
proof -
  have eq: "filter_geotagged_files results = filter (\<lambda>(file_path, md). is_geotagged md) results"
    using filter_geotagged_fold [OF assms, of "[]"]
    by (simp add: filter_geotagged_files_def geotag_test_is_geotagged)
  have m: "map_of (filter (\<lambda>(file_path, md). is_geotagged md) results) p =
        (case map_of results p of
           None \<Rightarrow> None
         | Some md \<Rightarrow> if is_geotagged md then Some md else None)"
    using assms
  proof (induction results)
    case Nil
    show ?case by simp
  next
    case (Cons r results)
    obtain q md where r: "r = (q, md)" by (cases r)
    from Cons.prems have nq: "q \<notin> fst ` set results" and d: "distinct (map fst results)"
      by (simp_all add: r)
    from nq have none: "map_of results q = None" by (simp add: map_of_eq_None_iff)
    show ?case using Cons.IH [OF d] none by (auto simp: r)
  qed
  show ?thesis unfolding eq using m by auto
qed

theorem C8_filter_geotagged_witness:
  "filter_geotagged_files
     [(''a.jpg'', no_keys \<lparr> gps_data := Some [(KStr ''DecimalLatitude'', PFloat 1),
                                               (KStr ''DecimalLongitude'', PFloat 2)] \<rparr>),
      (''b.jpg'', no_keys \<lparr> gps_data := Some [] \<rparr>),
      (''c.mp4'', error_only ''x'')]
   = [(''a.jpg'', no_keys \<lparr> gps_data := Some [(KStr ''DecimalLatitude'', PFloat 1),
                                                 (KStr ''DecimalLongitude'', PFloat 2)] \<rparr>)]"
  using C8_filter_geotagged [of
     "[(''a.jpg'', no_keys \<lparr> gps_data := Some [(KStr ''DecimalLatitude'', PFloat 1),
                                               (KStr ''DecimalLongitude'', PFloat 2)] \<rparr>),
      (''b.jpg'', no_keys \<lparr> gps_data := Some [] \<rparr>),
      (''c.mp4'', error_only ''x'')]" "''a.jpg''"]
  by (simp add: is_geotagged_def has_key_def keys_def no_keys_def error_only_def)




lemma flatten_all_errors:
  assumes "\<forall>(file_path, md) \<in> set data. error md \<noteq> None"
  shows "flatten E data = []"
proof -
  have "filter (\<lambda>(file_path, md). error md = None) data = []"
    using assms by (auto simp: filter_empty_conv)
  then show ?thesis by (simp add: flatten_def)
qed

text \<open>
  C10. When every record of the result set carries \<open>error\<close>, \<open>_export_csv\<close> returns
  \<open>False\<close> and the file system is as before: no file is opened or written.
\<close>

theorem C10_csv_only_errors:
  assumes "\<forall>(file_path, md) \<in> set data. error md \<noteq> None"
  shows "export_csv E data output_path files = (False, files)"
  using flatten_all_errors [OF assms] by (simp add: export_csv_def)

theorem C10_csv_only_errors_witness:
  "export_csv env0 [(''b.jpg'', error_only ''bad''), (''e.png'', error_only ''File not found'')]
     ''out.csv'' (\<lambda>p. None) = (False, (\<lambda>p. None))"
  using C10_csv_only_errors [of
      "[(''b.jpg'', error_only ''bad''), (''e.png'', error_only ''File not found'')]"
      env0 "''out.csv''" "\<lambda>p. None"]
  by (simp add: error_only_def no_keys_def)


section \<open>Failures are captured\<close>

lemma is_supported_file_iff:
  "is_supported_file p =
     (lower (path_suffix p) \<in> set supported_image_formats
      \<or> lower (path_suffix p) \<in> set supported_video_formats
      \<or> lower (path_suffix p) \<in> set supported_audio_formats)"
  by (simp add: is_supported_file_def Let_def)

lemma video_not_image:
  "ext \<in> set supported_video_formats \<Longrightarrow> ext \<notin> set supported_image_formats"
  by (auto simp: supported_video_formats_def supported_image_formats_def)

lemma audio_not_image_video:
  "ext \<in> set supported_audio_formats \<Longrightarrow>
   ext \<notin> set supported_image_formats \<and> ext \<notin> set supported_video_formats"
  by (auto simp: supported_audio_formats_def supported_video_formats_def supported_image_formats_def)

lemma extract_returns: "\<exists>md. extract_exif_data E p = Inr md"
  using extract_exif_data_cases [of E p] by blast

lemma extract_not_found:
  "\<not> path_exists E p \<Longrightarrow> extract_exif_data E p = Inr (error_only ''File not found'')"
  by (simp add: extract_exif_data_def)

lemma extract_unsupported:
  "path_exists E p \<Longrightarrow> \<not> is_supported_file p \<Longrightarrow>
   extract_exif_data E p = Inr (error_only ''Unsupported file format'')"
  by (simp add: extract_exif_data_def is_supported_file_iff Let_def)

lemma extract_stat_fails:
  assumes "path_exists E p" and "os_stat E p = Inl e"
    and "is_supported_file p"
  shows "extract_exif_data E p = Inr (error_only (''Failed to extract EXIF data: '' @ exc_msg e))"
proof -
  have g: "get_file_info E p = Inl e" using assms(2) by (simp add: get_file_info_def bindE_def)
  have "extract_image_exif E p = Inl e" "extract_video_exif E p = Inl e"
    "extract_audio_exif E p = Inl e"
    by (simp_all add: extract_image_exif_def extract_video_exif_def extract_audio_exif_def
        g bindE_def)
  with assms(1,3) show ?thesis
    by (auto simp: extract_exif_data_def is_supported_file_iff Let_def)
qed

lemma get_file_info_returns: "os_stat E p = Inr st \<Longrightarrow> \<exists>fi. get_file_info E p = Inr fi"
  by (simp add: get_file_info_def bindE_def)

lemma extract_image_error:
  assumes "os_stat E p = Inr st"
  shows "\<exists>md. extract_image_exif E p = Inr md
     \<and> error md = map_option (\<lambda>e. ''Error reading image EXIF: '' @ exc_msg e) (image_failure E p)"
proof -
  from get_file_info_returns [OF assms] obtain fi where fi: "get_file_info E p = Inr fi" by blast
  let ?md0 = "no_keys \<lparr> file_info := Some fi, exif_data := Some [], gps_data := Some [],
                   camera_info := Some [], image_info := Some [] \<rparr>"
  obtain r md1 where t: "image_try E p ?md0 = (r, md1)" by (cases "image_try E p ?md0")
  from image_try_failure [of E p ?md0] t have r: "r = image_failure E p" by simp
  from image_try_frame [OF t] have e1: "error md1 = None" by (simp add: no_keys_def)
  show ?thesis
    using fi t e1 unfolding r [symmetric]
    by (cases r) (simp_all add: extract_image_exif_def bindE_def)
qed

lemma video_probe_failure:
  "(case fst (video_probe E p md) of None \<Rightarrow> None | Some e \<Rightarrow> hard e) = video_failure E p"
proof (cases "ffprobe_run E p")
  case (Inl e)
  then show ?thesis by (simp add: video_probe_def video_failure_def)
next
  case (Inr res)
  obtain rc out where res: "res = (rc, out)" by (cases res)
  show ?thesis
  proof (cases "rc = 0")
    case False
    with Inr res show ?thesis by (simp add: video_probe_def video_failure_def)
  next
    case True
    show ?thesis
    proof (cases "json_loads E out")
      case (Inl e)
      with Inr res True show ?thesis by (simp add: video_probe_def video_failure_def)
    next
      case v: (Inr v)
      with Inr res True show ?thesis
        by (cases v) (simp_all add: video_probe_def video_failure_def)
    qed
  qed
qed

lemma extract_video_error:
  assumes "os_stat E p = Inr st"
  shows "\<exists>md. extract_video_exif E p = Inr md
     \<and> error md = map_option (\<lambda>e. ''Error reading video metadata: '' @ exc_msg e) (video_failure E p)"
proof -
  from get_file_info_returns [OF assms] obtain fi where fi: "get_file_info E p = Inr fi" by blast
  let ?md0 = "no_keys \<lparr> file_info := Some fi, video_info := Some (PDict []), exif_data := Some [] \<rparr>"
  obtain r md1 where t: "video_probe E p ?md0 = (r, md1)" by (cases "video_probe E p ?md0")
  from video_probe_failure [of E p ?md0] t
  have r: "video_failure E p = (case r of None \<Rightarrow> None | Some e \<Rightarrow> hard e)" by simp
  from video_probe_frame [OF t] have e1: "error md1 = None" by (simp add: no_keys_def)
  show ?thesis
    using fi t e1 unfolding r
    by (cases r) (simp_all add: extract_video_exif_def bindE_def hard_def soft_failure_def)
qed

lemma audio_tag_text_cases:
  "audio_tag_text E v =
     (if v = PList [] then Inl (Exc IndexError ''list index out of range'')
      else Inr (case v of PList xs \<Rightarrow> py_str E (hd xs) | _ \<Rightarrow> py_str E v))"
proof (cases v)
  case (PList xs)
  then show ?thesis by (cases xs) (simp_all add: audio_tag_text_def bindE_def)
qed (simp_all add: audio_tag_text_def)

lemma audio_tags_loop_failure: "fst (audio_tags_loop E tags md) = first_tag_failure tags"
proof (induction tags arbitrary: md)
  case Nil
  show ?case by simp
next
  case (Cons t tags)
  obtain k v where t: "t = (k, v)" by (cases t)
  show ?case
    unfolding t by (simp add: audio_tag_text_cases Cons.IH)
qed

lemma audio_mp3_failure:
  "lower (path_suffix p) = ''.mp3'' \<Longrightarrow> fst (audio_mp3 E p md) = audio_failure E p"
  by (simp add: audio_mp3_def audio_failure_def Let_def audio_tags_loop_failure
      split: option.splits sum.splits)

lemma extract_audio_error:
  assumes "os_stat E p = Inr st"
  shows "\<exists>md. extract_audio_exif E p = Inr md
     \<and> error md = map_option audio_error_text (audio_failure E p)"
proof -
  from get_file_info_returns [OF assms] obtain fi where fi: "get_file_info E p = Inr fi" by blast
  let ?md0 = "no_keys \<lparr> file_info := Some fi, audio_info := Some [], exif_data := Some [] \<rparr>"
  show ?thesis
  proof (cases "lower (path_suffix p) = ''.mp3''")
    case False
    then show ?thesis
      using fi by (simp add: extract_audio_exif_def bindE_def audio_failure_def no_keys_def)
  next
    case True
    obtain r md1 where t: "audio_mp3 E p ?md0 = (r, md1)" by (cases "audio_mp3 E p ?md0")
    from audio_mp3_failure [OF True, of E ?md0] t have r: "r = audio_failure E p" by simp
    from audio_mp3_frame [OF t] have e1: "error md1 = None" by (simp add: no_keys_def)
    show ?thesis
      using fi t e1 True unfolding r [symmetric]
      by (cases r) (simp_all add: extract_audio_exif_def bindE_def audio_error_text_def)
  qed
qed

lemma extract_image_captured:
  assumes "path_exists E p" and "os_stat E p = Inr st"
    and "lower (path_suffix p) \<in> set supported_image_formats"
  shows "\<exists>md. extract_exif_data E p = Inr md
     \<and> error md = map_option (\<lambda>e. ''Error reading image EXIF: '' @ exc_msg e) (image_failure E p)"
  using extract_image_error [OF assms(2)] assms(1,3)
  by (auto simp: extract_exif_data_def Let_def)

lemma extract_video_captured:
  assumes "path_exists E p" and "os_stat E p = Inr st"
    and "lower (path_suffix p) \<in> set supported_video_formats"
  shows "\<exists>md. extract_exif_data E p = Inr md
     \<and> error md = map_option (\<lambda>e. ''Error reading video metadata: '' @ exc_msg e) (video_failure E p)"
  using extract_video_error [OF assms(2)] assms(1,3) video_not_image [OF assms(3)]
  by (auto simp: extract_exif_data_def Let_def)

lemma extract_audio_captured:
  assumes "path_exists E p" and "os_stat E p = Inr st"
    and "lower (path_suffix p) \<in> set supported_audio_formats"
  shows "\<exists>md. extract_exif_data E p = Inr md
     \<and> error md = map_option audio_error_text (audio_failure E p)"
  using extract_audio_error [OF assms(2)] assms(1,3) audio_not_image_video [OF assms(3)]
  by (auto simp: extract_exif_data_def Let_def)

lemma process_files_entry:
  assumes "process_files E sched file_paths cb s = Inr (results, s')"
    and "p \<in> set file_paths" and "is_supported_file p"
  shows "\<exists>md. extract_exif_data E p = Inr md \<and> map_of results p = Some md"
proof -
  obtain md where md: "extract_exif_data E p = Inr md" using extract_returns by blast
  from assms(1) have "results =
     fold (\<lambda>fut rs. AList.update (fst fut) (task_record (snd fut)) rs)
       (as_completed sched
          (map (\<lambda>file_path. (file_path, extract_exif_data E file_path))
             (filter is_supported_file file_paths))) []"
    unfolding process_files_def by (rule process_files_with_Inr)
  then have "map_of results p = Some (task_record (extract_exif_data E p))"
    using assms(2,3) by (simp only: results_map_of if_True simp_thms)
  then have "map_of results p = Some md"
    using md by (simp add: task_record_def)
  with md show ?thesis by blast
qed

lemma export_data_unrecognised:
  "lower format_type \<notin> set supported_formats \<Longrightarrow>
   export_data E export_json export_txt data output_path format_type files
     = Inl (Exc ValueError (''Unsupported format: '' @ lower format_type))"
  by (simp add: export_data_def Let_def)

lemma export_data_recognised:
  "lower format_type \<in> set supported_formats \<Longrightarrow>
   \<exists>r. export_data E export_json export_txt data output_path format_type files = Inr r"
  by (simp add: export_data_def Let_def)

text \<open>
  C4, as stated, fails for \<open>process_files\<close>: the progress callback is called outside
  the \<open>try\<close>, so an exception it raises reaches the caller and no result map is
  returned.
\<close>

theorem C4_callback_counterexample:
  "process_files env0 [] [''a.jpg'', ''c.mp4''] (Some failing_callback) ()
     = Inl (Exc OtherError ''callback'')"
proof -
  have a: "is_supported_file ''a.jpg''" and c: "is_supported_file ''c.mp4''"
    by (simp_all add: is_supported_file_def path_suffix_def path_name_def lower_def lower_char_def
        supported_image_formats_def supported_video_formats_def supported_audio_formats_def Let_def)
  show ?thesis
    by (simp add: process_files_def process_files_with_def Let_def a c completion_step_def
        failing_callback_def)
qed

text \<open>
  C4, amended. In every world \<open>extract_exif_data\<close> returns a record and raises
  nothing, and every per-file failure ends in the record's \<open>error\<close>: a missing file, an
  unsupported extension, a failing \<open>os.stat\<close>, and, for a file that can be examined,
  exactly the first failure of its sources (for an image Pillow, \<open>_getexif\<close>, the GPS
  decoder or exifread; for a video the probe or its output, the two soft failures
  excepted; for an \<open>.mp3\<close> the missing mutagen, mutagen itself or a malformed tag
  value), with \<open>error\<close> absent when no source fails. For every extraction function,
  also one that raises, and every completion order, \<open>process_files\<close> raises only what
  the caller's progress callback raises; without a callback, or with one that returns, it
  returns, and the map it returns holds for each supported path of the input the task's
  record, or the record of the task's exception. \<open>export_data\<close> raises \<open>ValueError\<close> to
  the caller exactly when the lower-cased format token is none of \<open>json\<close>, \<open>csv\<close>,
  \<open>txt\<close>.
\<close>

theorem C4_per_file_failures_captured:
  "(\<exists>md. extract_exif_data E p = Inr md)
   \<and> (\<not> path_exists E p \<longrightarrow> extract_exif_data E p = Inr (error_only ''File not found''))
   \<and> (path_exists E p \<and> \<not> is_supported_file p
        \<longrightarrow> extract_exif_data E p = Inr (error_only ''Unsupported file format''))
   \<and> (path_exists E p \<and> is_supported_file p \<and> os_stat E p = Inl e
        \<longrightarrow> extract_exif_data E p
              = Inr (error_only (''Failed to extract EXIF data: '' @ exc_msg e)))
   \<and> (path_exists E p \<and> os_stat E p = Inr st
        \<and> lower (path_suffix p) \<in> set supported_image_formats
        \<longrightarrow> (\<exists>md. extract_exif_data E p = Inr md
               \<and> error md = map_option (\<lambda>e. ''Error reading image EXIF: '' @ exc_msg e)
                               (image_failure E p)))
   \<and> (path_exists E p \<and> os_stat E p = Inr st
        \<and> lower (path_suffix p) \<in> set supported_video_formats
        \<longrightarrow> (\<exists>md. extract_exif_data E p = Inr md
               \<and> error md = map_option (\<lambda>e. ''Error reading video metadata: '' @ exc_msg e)
                               (video_failure E p)))
   \<and> (path_exists E p \<and> os_stat E p = Inr st
        \<and> lower (path_suffix p) \<in> set supported_audio_formats
        \<longrightarrow> (\<exists>md. extract_exif_data E p = Inr md
               \<and> error md = map_option audio_error_text (audio_failure E p)))
   \<and> (process_files_with task sched file_paths cb s = Inl e
        \<longrightarrow> (\<exists>f k s1. cb = Some f
               \<and> f k (length (filter is_supported_file file_paths)) s1 = Inl e))
   \<and> (process_files_with task sched file_paths cb s = Inr (results, s')
        \<longrightarrow> map_of results p
              = (if p \<in> set file_paths \<and> is_supported_file p
                 then Some (task_record (task p)) else None))
   \<and> (\<exists>rs. process_files_with task sched file_paths None s = Inr (rs, s))
   \<and> (\<exists>rs s2. process_files_with task sched file_paths (Some (returning g)) s = Inr (rs, s2))
   \<and> task_record (Inl e) = error_only (''Exception occurred: '' @ exc_msg e)
   \<and> (process_files E sched file_paths cb s = Inr (results, s')
        \<and> p \<in> set file_paths \<and> is_supported_file p
        \<longrightarrow> (\<exists>md. extract_exif_data E p = Inr md \<and> map_of results p = Some md))
   \<and> (lower format_type \<notin> set supported_formats
        \<longrightarrow> export_data E export_json export_txt data output_path format_type files
              = Inl (Exc ValueError (''Unsupported format: '' @ lower format_type)))
   \<and> (lower format_type \<in> set supported_formats
        \<longrightarrow> (\<exists>r. export_data E export_json export_txt data output_path format_type files = Inr r))"
proof (intro conjI impI)
  show "\<exists>md. extract_exif_data E p = Inr md" by (rule extract_returns)
  show "extract_exif_data E p = Inr (error_only ''File not found'')" if "\<not> path_exists E p"
    using that by (rule extract_not_found)
  show "extract_exif_data E p = Inr (error_only ''Unsupported file format'')"
    if "path_exists E p \<and> \<not> is_supported_file p"
    using that by (simp add: extract_unsupported)
  show "extract_exif_data E p = Inr (error_only (''Failed to extract EXIF data: '' @ exc_msg e))"
    if "path_exists E p \<and> is_supported_file p \<and> os_stat E p = Inl e"
    using that by (simp add: extract_stat_fails)
  show "\<exists>md. extract_exif_data E p = Inr md
          \<and> error md = map_option (\<lambda>e. ''Error reading image EXIF: '' @ exc_msg e)
                          (image_failure E p)"
    if "path_exists E p \<and> os_stat E p = Inr st
        \<and> lower (path_suffix p) \<in> set supported_image_formats"
    using that extract_image_captured [of E p st] by blast
  show "\<exists>md. extract_exif_data E p = Inr md
          \<and> error md = map_option (\<lambda>e. ''Error reading video metadata: '' @ exc_msg e)
                          (video_failure E p)"
    if "path_exists E p \<and> os_stat E p = Inr st
        \<and> lower (path_suffix p) \<in> set supported_video_formats"
    using that extract_video_captured [of E p st] by blast
  show "\<exists>md. extract_exif_data E p = Inr md
          \<and> error md = map_option audio_error_text (audio_failure E p)"
    if "path_exists E p \<and> os_stat E p = Inr st
        \<and> lower (path_suffix p) \<in> set supported_audio_formats"
    using that extract_audio_captured [of E p st] by blast
  show "\<exists>f k s1. cb = Some f \<and> f k (length (filter is_supported_file file_paths)) s1 = Inl e"
    if "process_files_with task sched file_paths cb s = Inl e"
    using that by (rule process_files_with_Inl)
  show "map_of results p
          = (if p \<in> set file_paths \<and> is_supported_file p
             then Some (task_record (task p)) else None)"
    if "process_files_with task sched file_paths cb s = Inr (results, s')"
    using process_files_with_Inr [OF that] by (simp only: results_map_of)
  show "\<exists>rs. process_files_with task sched file_paths None s = Inr (rs, s)"
    by (simp add: process_files_with_None)
  show "\<exists>rs s2. process_files_with task sched file_paths (Some (returning g)) s = Inr (rs, s2)"
    by (simp add: process_files_with_returning del: upt_Suc)
  show "task_record (Inl e) = error_only (''Exception occurred: '' @ exc_msg e)"
    by (simp add: task_record_def)
  show "\<exists>md. extract_exif_data E p = Inr md \<and> map_of results p = Some md"
    if "process_files E sched file_paths cb s = Inr (results, s')
        \<and> p \<in> set file_paths \<and> is_supported_file p"
    using that process_files_entry [of E sched file_paths cb s results s' p] by blast
  show "export_data E export_json export_txt data output_path format_type files
          = Inl (Exc ValueError (''Unsupported format: '' @ lower format_type))"
    if "lower format_type \<notin> set supported_formats"
    using that by (rule export_data_unrecognised)
  show "\<exists>r. export_data E export_json export_txt data output_path format_type files = Inr r"
    if "lower format_type \<in> set supported_formats"
    using that by (rule export_data_recognised)
qed

lemma sample_lower_xml: "lower ''XML'' = ''xml''"
  by (simp add: lower_def lower_char_def)

lemma sample_suffix_b: "lower (path_suffix ''b.jpg'') = ''.jpg''"
  by (simp add: path_suffix_def path_name_def lower_def lower_char_def Let_def)

theorem C4_per_file_failures_captured_witness:
  "extract_exif_data env0 ''e.png'' = Inr (error_only ''File not found'')
   \<and> (\<exists>md. extract_exif_data env0 ''b.jpg'' = Inr md
          \<and> error md = Some ''Error reading image EXIF: bad'')
   \<and> export_data env0 (\<lambda>d p f. (True, f)) (\<lambda>d p f. (True, f)) [] ''out'' ''XML'' (\<lambda>p. None)
       = Inl (Exc ValueError ''Unsupported format: xml'')"
proof -
  have a: "\<not> path_exists env0 ''e.png''" by (simp add: env0_def)
  have b: "lower ''XML'' \<notin> set supported_formats"
    unfolding sample_lower_xml by (simp add: supported_formats_def)
  have c: "path_exists env0 ''b.jpg''"
    and d: "os_stat env0 ''b.jpg'' = Inr \<lparr> st_size = 0, st_ctime = 0, st_mtime = 0 \<rparr>"
    by (simp_all add: env0_def)
  have e: "lower (path_suffix ''b.jpg'') \<in> set supported_image_formats"
    unfolding sample_suffix_b by (simp add: supported_image_formats_def)
  have f: "image_failure env0 ''b.jpg'' = Some (Exc OSError ''bad'')"
    by (simp add: image_failure_def env0_def)
  note inst = C4_per_file_failures_captured [where E = env0
      and e = "Exc OSError ''bad''"
      and st = "\<lparr> st_size = 0, st_ctime = 0, st_mtime = 0 \<rparr>"
      and task = "extract_exif_data env0" and sched = "[]" and file_paths = "[]"
      and cb = "None :: (nat \<Rightarrow> nat \<Rightarrow> unit \<Rightarrow> exc + unit) option" and s = "()"
      and results = "[]" and s' = "()" and g = "\<lambda>k n u. u"
      and format_type = "''XML''" and export_json = "\<lambda>d p f. (True, f)"
      and export_txt = "\<lambda>d p f. (True, f)" and data = "[]" and output_path = "''out''"
      and files = "\<lambda>p. None"]
  from inst [where p = "''e.png''"] a
  have r1: "extract_exif_data env0 ''e.png'' = Inr (error_only ''File not found'')"
    by blast
  from inst [where p = "''e.png''"] b
  have r3: "export_data env0 (\<lambda>d p f. (True, f)) (\<lambda>d p f. (True, f)) [] ''out'' ''XML'' (\<lambda>p. None)
       = Inl (Exc ValueError (''Unsupported format: '' @ lower ''XML''))"
    by blast
  from inst [where p = "''b.jpg''"] c d e
  have "\<exists>md. extract_exif_data env0 ''b.jpg'' = Inr md
          \<and> error md = map_option (\<lambda>e. ''Error reading image EXIF: '' @ exc_msg e)
                          (image_failure env0 ''b.jpg'')"
    by blast
  then have r2: "\<exists>md. extract_exif_data env0 ''b.jpg'' = Inr md
          \<and> error md = Some ''Error reading image EXIF: bad''"
    unfolding f by simp
  have r3': "export_data env0 (\<lambda>d p f. (True, f)) (\<lambda>d p f. (True, f)) [] ''out'' ''XML'' (\<lambda>p. None)
       = Inl (Exc ValueError ''Unsupported format: xml'')"
    using r3 unfolding sample_lower_xml by simp
  from r1 r2 r3' show ?thesis by blast
qed

end
